theory Spec2Isabelle
  imports Complex_Main
begin

section \<open>The interview score calculator of Mathematics.py\<close>

text \<open>
  The repository has one function, \<^verbatim>\<open>calculate_scores(questions_data, interview_config)\<close>.
  It reads a list of per-question dictionaries and a configuration dictionary and returns a
  dictionary of rounded scores.

  Modelling decisions.
  \<^item> Python numbers (ints and floats) are exact reals: \<^verbatim>\<open>/\<close> is true division,
    \<^verbatim>\<open>math.exp\<close> is the real exponential, \<^verbatim>\<open>1e-6\<close> is \<open>1 / 10^6\<close>. The rounding of
    binary floating point is left to a second model of the function, given under
    ``Binary floating point'' below, which has a rounding operator at every operation and is
    this one when the operator is the identity.
  \<^item> A question dictionary is a record whose fields are optional: \<open>None\<close> is a missing key.
    A field that is present holds a number (\<^verbatim>\<open>H_types\<close>: a list of numbers); what Python
    does on values of another type is outside the model.
  \<^item> The weights dictionary is the list of its items in insertion order, looked up with
    \<open>map_of\<close>, since the source iterates over its values.
  \<^item> An exception is a value \<open>Inl e\<close>; evaluation order follows the source, so the first
    exception the source would raise is the one returned.
\<close>

subsection \<open>Exceptions and partial operations\<close>

datatype error = KeyError string | ZeroDivisionError

definition bind_err :: "error + 'a \<Rightarrow> ('a \<Rightarrow> error + 'b) \<Rightarrow> error + 'b" where
  "bind_err m f = (case m of Inl e \<Rightarrow> Inl e | Inr x \<Rightarrow> f x)"

text \<open>\<^verbatim>\<open>d[k]\<close>: the value under a key, or \<^verbatim>\<open>KeyError\<close>.\<close>

definition need :: "string \<Rightarrow> 'a option \<Rightarrow> error + 'a" where
  "need k v = (case v of None \<Rightarrow> Inl (KeyError k) | Some x \<Rightarrow> Inr x)"

text \<open>\<^verbatim>\<open>a / b\<close>: true division, raising on a zero divisor.\<close>

definition py_div :: "real \<Rightarrow> real \<Rightarrow> error + real" where
  "py_div a b = (if b = 0 then Inl ZeroDivisionError else Inr (a / b))"

text \<open>
  \<^verbatim>\<open>round(x, 2)\<close>: the nearest multiple of \<open>1/100\<close>, a tie going to the even one.
\<close>

definition py_round2 :: "real \<Rightarrow> real" where
  "py_round2 x =
     (let y = x * 100; n = \<lfloor>y\<rfloor>; d = y - of_int n
      in of_int (if d < 1 / 2 then n else if 1 / 2 < d then n + 1
                 else if even n then n else n + 1) / 100)"

subsection \<open>Input and output data\<close>

record question =
  T_think :: "real option"
  T_total :: "real option"
  T_stuck :: "real option"
  E_covered :: "real option"
  E_total :: "real option"
  C_initial :: "real option"
  C_final :: "real option"
  C_target :: "real option"
  S_lint :: "real option"
  K_useful :: "real option"
  K_total :: "real option"
  S_sentiment :: "real option"
  H_types :: "real list option"
  Q_difficulty :: "real option"

record interview_config =
  weights :: "(string \<times> real) list option"
  hint_budget :: "real option"

record details =
  Base_Score :: real
  Difficulty_Factor :: real

record report =
  Problem_Solving_Score :: real
  Coding_Proficiency_Score :: real
  Resilience_Score :: real
  Autonomy_Score :: real
  Overall_Score :: real
  Details :: details

subsection \<open>Per-question scores (source lines 31 to 53)\<close>

definition epsilon :: real where
  "epsilon = 1 / 1000000"

text \<open>Line 33.\<close>

definition think_ratio_term :: "question \<Rightarrow> error + real" where
  "think_ratio_term q =
     bind_err (need ''T_think'' (T_think q)) (\<lambda>a.
     bind_err (need ''T_total'' (T_total q)) (\<lambda>b.
     bind_err (py_div a b) (\<lambda>r.
     Inr (exp (- ((r - 3 / 10) ^ 2))))))"

text \<open>Line 34.\<close>

definition score_ps :: "question \<Rightarrow> error + real" where
  "score_ps q =
     bind_err (think_ratio_term q) (\<lambda>t.
     bind_err (need ''E_covered'' (E_covered q)) (\<lambda>c.
     bind_err (need ''E_total'' (E_total q)) (\<lambda>e.
     bind_err (py_div c e) (\<lambda>cov.
     Inr (10 * (6 / 10 * cov + 4 / 10 * min 1 t))))))"

text \<open>Lines 38 to 40.\<close>

definition improvement_factor :: "question \<Rightarrow> error + real" where
  "improvement_factor q =
     bind_err (need ''C_initial'' (C_initial q)) (\<lambda>ci.
     bind_err (need ''C_final'' (C_final q)) (\<lambda>cf.
     bind_err (need ''C_initial'' (C_initial q)) (\<lambda>ci'.
     bind_err (need ''C_target'' (C_target q)) (\<lambda>ct.
     bind_err (py_div (ci - cf) (ci' - ct + epsilon)) (\<lambda>r.
     Inr (max 0 (min 1 r)))))))"

text \<open>Line 42: the condition is evaluated first, \<^verbatim>\<open>K_useful\<close> is read only when it holds.\<close>

definition keystroke_efficiency :: "question \<Rightarrow> error + real" where
  "keystroke_efficiency q =
     bind_err (need ''K_total'' (K_total q)) (\<lambda>kt.
     if kt > 0 then
       bind_err (need ''K_useful'' (K_useful q)) (\<lambda>ku.
       bind_err (need ''K_total'' (K_total q)) (\<lambda>kt'.
       py_div ku kt'))
     else Inr 0)"

text \<open>Line 43.\<close>

definition score_code :: "question \<Rightarrow> error + real" where
  "score_code q =
     bind_err (improvement_factor q) (\<lambda>f.
     bind_err (keystroke_efficiency q) (\<lambda>k.
     bind_err (need ''S_lint'' (S_lint q)) (\<lambda>l.
     Inr (10 * (5 / 10 * f + 3 / 10 * l + 2 / 10 * k)))))"

text \<open>Line 47: as in line 42, \<^verbatim>\<open>T_stuck\<close> is read only when \<^verbatim>\<open>T_total > 0\<close>.\<close>

definition stuck_ratio :: "question \<Rightarrow> error + real" where
  "stuck_ratio q =
     bind_err (need ''T_total'' (T_total q)) (\<lambda>tt.
     if tt > 0 then
       bind_err (need ''T_stuck'' (T_stuck q)) (\<lambda>ts.
       bind_err (need ''T_total'' (T_total q)) (\<lambda>tt'.
       py_div ts tt'))
     else Inr 1)"

text \<open>Line 48.\<close>

definition score_resilience :: "question \<Rightarrow> error + real" where
  "score_resilience q =
     bind_err (stuck_ratio q) (\<lambda>r.
     bind_err (need ''S_sentiment'' (S_sentiment q)) (\<lambda>s.
     Inr (10 * ((1 - r) * s))))"

text \<open>Line 52: \<^verbatim>\<open>sum(q.get('H_types', []))\<close>, a missing key being the empty list.\<close>

definition hints_of :: "question \<Rightarrow> real" where
  "hints_of q = sum_list (case H_types q of None \<Rightarrow> [] | Some h \<Rightarrow> h)"

text \<open>The state of the loop: the three score lists and the two running totals.\<close>

record loop_state =
  ps_scores :: "real list"
  code_scores :: "real list"
  resilience_scores :: "real list"
  total_hints_score :: real
  total_difficulty :: real

definition init_state :: loop_state where
  "init_state = \<lparr>ps_scores = [], code_scores = [], resilience_scores = [],
     total_hints_score = 0, total_difficulty = 0\<rparr>"

text \<open>One iteration of the loop body, lines 32 to 53.\<close>

definition loop_body :: "loop_state \<Rightarrow> question \<Rightarrow> error + loop_state" where
  "loop_body s q =
     bind_err (score_ps q) (\<lambda>p.
     bind_err (score_code q) (\<lambda>c.
     bind_err (score_resilience q) (\<lambda>r.
     bind_err (need ''Q_difficulty'' (Q_difficulty q)) (\<lambda>d.
     Inr \<lparr>ps_scores = ps_scores s @ [p],
          code_scores = code_scores s @ [c],
          resilience_scores = resilience_scores s @ [r],
          total_hints_score = total_hints_score s + hints_of q,
          total_difficulty = total_difficulty s + d\<rparr>))))"

fun score_loop :: "loop_state \<Rightarrow> question list \<Rightarrow> error + loop_state" where
  "score_loop s [] = Inr s"
| "score_loop s (q # qs) = bind_err (loop_body s q) (\<lambda>s'. score_loop s' qs)"

subsection \<open>Averages, autonomy and the overall score (lines 56 to 73)\<close>

text \<open>Lines 56 to 58: \<^verbatim>\<open>sum(xs) / num_questions if num_questions > 0 else 0\<close>.\<close>

definition average :: "real list \<Rightarrow> nat \<Rightarrow> real" where
  "average xs n = (if n > 0 then sum_list xs / real n else 0)"

text \<open>Line 62, as a function of the hint total and the denominator of line 61.\<close>

definition autonomy_term :: "real \<Rightarrow> real \<Rightarrow> real" where
  "autonomy_term hints autonomy_denominator =
     (if autonomy_denominator > 0 then 1 - hints / autonomy_denominator else 1)"

text \<open>Lines 61 to 63, as a function of the two totals and the hint budget.\<close>

definition score_autonomy :: "real \<Rightarrow> real \<Rightarrow> real \<Rightarrow> real" where
  "score_autonomy hints difficulty budget =
     10 * max 0 (autonomy_term hints (difficulty * budget))"

text \<open>Line 72.\<close>

definition difficulty_factor :: "real \<Rightarrow> nat \<Rightarrow> real" where
  "difficulty_factor difficulty n = (if n > 0 then difficulty / (3 * real n) else 1)"

text \<open>The unrounded values that line 76 onwards rounds and returns.\<close>

record scores =
  avg_score_ps :: real
  avg_score_code :: real
  avg_score_resilience :: real
  autonomy :: real
  base_score :: real
  factor :: real
  score_overall :: real

text \<open>Lines 66 to 70: the weighted mean of the four scores.\<close>

definition base_score_of ::
  "(string \<times> real) list \<Rightarrow> real \<Rightarrow> real \<Rightarrow> real \<Rightarrow> real \<Rightarrow> error + real" where
  "base_score_of w p c r a =
     bind_err (need ''ps'' (map_of w ''ps'')) (\<lambda>wp.
     bind_err (need ''code'' (map_of w ''code'')) (\<lambda>wc.
     bind_err (need ''resilience'' (map_of w ''resilience'')) (\<lambda>wr.
     bind_err (need ''autonomy'' (map_of w ''autonomy'')) (\<lambda>wa.
     py_div (wp * p + wc * c + wr * r + wa * a) (sum_list (map snd w))))))"

text \<open>Lines 17 to 73: everything before the result dictionary is built.\<close>

definition compute_scores :: "question list \<Rightarrow> interview_config \<Rightarrow> error + scores" where
  "compute_scores questions_data cfg =
     (let num_questions = length questions_data in
      bind_err (score_loop init_state questions_data) (\<lambda>s.
      let p = average (ps_scores s) num_questions;
          c = average (code_scores s) num_questions;
          r = average (resilience_scores s) num_questions;
          a = score_autonomy (total_hints_score s) (total_difficulty s)
                (case hint_budget cfg of None \<Rightarrow> 1 | Some b \<Rightarrow> b)
      in
      bind_err (need ''weights'' (weights cfg)) (\<lambda>w.
      bind_err (base_score_of w p c r a) (\<lambda>b.
      let f = difficulty_factor (total_difficulty s) num_questions
      in Inr \<lparr>avg_score_ps = p, avg_score_code = c, avg_score_resilience = r,
              autonomy = a, base_score = b, factor = f,
              score_overall = b * (8 / 10 + 4 / 10 * f)\<rparr>))))"

text \<open>Lines 76 to 86: the returned dictionary, each value rounded to two places.\<close>

definition compile_report :: "scores \<Rightarrow> report" where
  "compile_report s =
     \<lparr>Problem_Solving_Score = py_round2 (avg_score_ps s),
      Coding_Proficiency_Score = py_round2 (avg_score_code s),
      Resilience_Score = py_round2 (avg_score_resilience s),
      Autonomy_Score = py_round2 (autonomy s),
      Overall_Score = py_round2 (score_overall s),
      Details = \<lparr>Base_Score = py_round2 (base_score s),
                 Difficulty_Factor = py_round2 (factor s)\<rparr>\<rparr>"

definition calculate_scores :: "question list \<Rightarrow> interview_config \<Rightarrow> error + report" where
  "calculate_scores questions_data cfg =
     bind_err (compute_scores questions_data cfg) (\<lambda>s. Inr (compile_report s))"

subsection \<open>Scaling the weights\<close>

text \<open>
  The four weights that line 67 reads multiplied by the same constant. Any other entry of
  the dictionary (line 69 sums them all) is left as it is.
\<close>

definition named_weights :: "string list" where
  "named_weights = [''ps'', ''code'', ''resilience'', ''autonomy'']"

definition scale_weights :: "real \<Rightarrow> interview_config \<Rightarrow> interview_config" where
  "scale_weights c cfg =
     cfg\<lparr>weights := map_option
       (map (\<lambda>(k, v). if k \<in> set named_weights then (k, c * v) else (k, v)))
       (weights cfg)\<rparr>"

text \<open>The weights dictionary, when there is one, has no entry besides these four.\<close>

definition only_named_weights :: "interview_config \<Rightarrow> bool" where
  "only_named_weights cfg \<longleftrightarrow>
     (case weights cfg of None \<Rightarrow> True
      | Some w \<Rightarrow> list_all (\<lambda>kv. fst kv \<in> set named_weights) w)"

subsection \<open>Concrete inputs\<close>

text \<open>The first question and the configuration of the example at the end of the source.\<close>

definition q1 :: question where
  "q1 = \<lparr>T_think = Some 120, T_total = Some 600, T_stuck = Some 45,
     E_covered = Some 3, E_total = Some 4,
     C_initial = Some 2, C_final = Some 1, C_target = Some 1,
     S_lint = Some (85 / 100), K_useful = Some 400, K_total = Some 550,
     S_sentiment = Some (8 / 10), H_types = Some [1], Q_difficulty = Some 2\<rparr>"

definition cfg1 :: interview_config where
  "cfg1 = \<lparr>weights = Some [(''ps'', 4 / 10), (''code'', 3 / 10),
       (''resilience'', 1 / 10), (''autonomy'', 2 / 10)],
     hint_budget = Some 1\<rparr>"

text \<open>The same question with no time recorded at all.\<close>

definition q_zero_time :: question where
  "q_zero_time = q1\<lparr>T_think := Some 0, T_total := Some 0, T_stuck := Some 0\<rparr>"

text \<open>
  The unrounded scores of \<open>q1\<close> under \<open>cfg1\<close>, as a function of the value \<open>t\<close> of the
  think-ratio term of line 33, and the report they round to.
\<close>

definition q1_scores :: "real \<Rightarrow> scores" where
  "q1_scores t =
     (let p = 10 * (6 / 10 * (3 / 4) + 4 / 10 * t);
          c = 1981000881 / 220000220;
          b = (4 / 10 * p + 3 / 10 * c + 1 / 10 * (74 / 10) + 2 / 10 * 5) / 1
      in \<lparr>avg_score_ps = p, avg_score_code = c, avg_score_resilience = 74 / 10,
           autonomy = 5, base_score = b, factor = 2 / 3,
           score_overall = b * (8 / 10 + 4 / 10 * (2 / 3))\<rparr>)"

definition q1_report :: report where
  "q1_report = \<lparr>Problem_Solving_Score = 846 / 100, Coding_Proficiency_Score = 9,
     Resilience_Score = 74 / 10, Autonomy_Score = 5, Overall_Score = 835 / 100,
     Details = \<lparr>Base_Score = 783 / 100, Difficulty_Factor = 67 / 100\<rparr>\<rparr>"

text \<open>A question answered as well as the formulas allow, on a hard question.\<close>

definition q_best :: question where
  "q_best = \<lparr>T_think = Some 3, T_total = Some 10, T_stuck = Some 0,
     E_covered = Some 4, E_total = Some 4,
     C_initial = Some 2, C_final = Some 1, C_target = Some 1,
     S_lint = Some 1, K_useful = Some 100, K_total = Some 100,
     S_sentiment = Some 1, H_types = Some [], Q_difficulty = Some 5\<rparr>"

text \<open>The same with a key left out, and the configuration with no hint budget.\<close>

definition q_no_hints :: question where
  "q_no_hints = q_best\<lparr>H_types := None\<rparr>"

definition q_no_keys :: question where
  "q_no_keys = q_best\<lparr>K_total := Some 0, K_useful := None\<rparr>"

definition cfg_no_budget :: interview_config where
  "cfg_no_budget = cfg1\<lparr>hint_budget := None\<rparr>"

subsection \<open>Keys the computation reads\<close>

text \<open>
  A question lacks a key that the loop body reads: any key but \<^verbatim>\<open>H_types\<close>, where
  \<^verbatim>\<open>K_useful\<close> is read only when \<^verbatim>\<open>K_total > 0\<close> and \<^verbatim>\<open>T_stuck\<close> only when
  \<^verbatim>\<open>T_total > 0\<close>.
\<close>

definition lacks_read_field :: "question \<Rightarrow> bool" where
  "lacks_read_field q \<longleftrightarrow>
     T_think q = None \<or> T_total q = None \<or> E_covered q = None \<or> E_total q = None
     \<or> C_initial q = None \<or> C_final q = None \<or> C_target q = None
     \<or> K_total q = None
     \<or> (K_useful q = None \<and> (case K_total q of None \<Rightarrow> False | Some k \<Rightarrow> 0 < k))
     \<or> S_lint q = None
     \<or> (T_stuck q = None \<and> (case T_total q of None \<Rightarrow> False | Some t \<Rightarrow> 0 < t))
     \<or> S_sentiment q = None \<or> Q_difficulty q = None"

text \<open>The configuration lacks \<^verbatim>\<open>weights\<close> or one of the four weights read in line 67.\<close>

definition lacks_weight :: "interview_config \<Rightarrow> bool" where
  "lacks_weight cfg \<longleftrightarrow>
     (case weights cfg of None \<Rightarrow> True
      | Some w \<Rightarrow> map_of w ''ps'' = None \<or> map_of w ''code'' = None
          \<or> map_of w ''resilience'' = None \<or> map_of w ''autonomy'' = None)"

subsection \<open>The input contract\<close>

text \<open>
  What the data model asks of a question: every key present, durations non-negative with
  \<^verbatim>\<open>T_think\<close> and \<^verbatim>\<open>T_stuck\<close> at most \<^verbatim>\<open>T_total > 0\<close>, \<^verbatim>\<open>0 < E_covered \<le> E_total\<close>,
  \<^verbatim>\<open>0 \<le> K_useful \<le> K_total\<close>, \<^verbatim>\<open>S_lint\<close> and \<^verbatim>\<open>S_sentiment\<close> in \<open>[0,1]\<close>, hint weights
  non-negative, difficulty positive. The three complexity values are unconstrained.
\<close>

definition valid_question :: "question \<Rightarrow> bool" where
  "valid_question q \<longleftrightarrow>
     T_think q \<noteq> None \<and> T_total q \<noteq> None \<and> T_stuck q \<noteq> None
     \<and> E_covered q \<noteq> None \<and> E_total q \<noteq> None
     \<and> C_initial q \<noteq> None \<and> C_final q \<noteq> None \<and> C_target q \<noteq> None
     \<and> S_lint q \<noteq> None \<and> K_useful q \<noteq> None \<and> K_total q \<noteq> None
     \<and> S_sentiment q \<noteq> None \<and> H_types q \<noteq> None \<and> Q_difficulty q \<noteq> None
     \<and> 0 \<le> the (T_think q) \<and> the (T_think q) \<le> the (T_total q)
     \<and> 0 \<le> the (T_stuck q) \<and> the (T_stuck q) \<le> the (T_total q)
     \<and> 0 < the (T_total q)
     \<and> 0 < the (E_covered q) \<and> the (E_covered q) \<le> the (E_total q)
     \<and> 0 < the (E_total q)
     \<and> 0 \<le> the (K_useful q) \<and> the (K_useful q) \<le> the (K_total q)
     \<and> 0 \<le> the (S_lint q) \<and> the (S_lint q) \<le> 1
     \<and> 0 \<le> the (S_sentiment q) \<and> the (S_sentiment q) \<le> 1
     \<and> list_all (\<lambda>x. 0 \<le> x) (the (H_types q))
     \<and> 0 < the (Q_difficulty q)"

text \<open>The four weights are present, every weight is non-negative and their sum is positive.\<close>

definition valid_config :: "interview_config \<Rightarrow> bool" where
  "valid_config cfg \<longleftrightarrow>
     (case weights cfg of None \<Rightarrow> False
      | Some w \<Rightarrow> map_of w ''ps'' \<noteq> None \<and> map_of w ''code'' \<noteq> None
          \<and> map_of w ''resilience'' \<noteq> None \<and> map_of w ''autonomy'' \<noteq> None
          \<and> list_all (\<lambda>kv. 0 \<le> snd kv) w \<and> 0 < sum_list (map snd w))"

text \<open>The denominator of line 39 is zero: \<^verbatim>\<open>C_target = C_initial + epsilon\<close>.\<close>

definition at_pole :: "question \<Rightarrow> bool" where
  "at_pole q \<longleftrightarrow>
     (case C_initial q of None \<Rightarrow> False
      | Some ci \<Rightarrow> (case C_target q of None \<Rightarrow> False | Some ct \<Rightarrow> ci - ct + epsilon = 0))"

text \<open>The first example question with complexity 0 throughout and target \<^verbatim>\<open>1e-6\<close>.\<close>

definition q_pole :: question where
  "q_pole = q1\<lparr>C_initial := Some 0, C_final := Some 0, C_target := Some (1 / 1000000)\<rparr>"

definition in_range :: "real \<Rightarrow> bool" where
  "in_range x \<longleftrightarrow> 0 \<le> x \<and> x \<le> 10"

text \<open>
  The invariant of the loop after \<open>n\<close> questions: three lists of \<open>n\<close> scores in \<open>[0,10]\<close>
  and non-negative totals.
\<close>

definition loop_inv :: "nat \<Rightarrow> loop_state \<Rightarrow> bool" where
  "loop_inv n s \<longleftrightarrow>
     length (ps_scores s) = n \<and> length (code_scores s) = n
     \<and> length (resilience_scores s) = n
     \<and> list_all in_range (ps_scores s) \<and> list_all in_range (code_scores s)
     \<and> list_all in_range (resilience_scores s)
     \<and> 0 \<le> total_hints_score s \<and> 0 \<le> total_difficulty s"

subsection \<open>Filling in missing hint lists\<close>

text \<open>The question with an empty hint list in place of a missing \<^verbatim>\<open>H_types\<close>.\<close>

definition fill_hints :: "question \<Rightarrow> question" where
  "fill_hints q = (case H_types q of None \<Rightarrow> q\<lparr>H_types := Some []\<rparr> | Some h \<Rightarrow> q)"

subsection \<open>Binary floating point\<close>

text \<open>
  The source computes with Python floats, which are IEEE 754 binary64 numbers.
  \<open>binary64 x\<close> is the number with a 53 bit significand nearest to \<open>x\<close>, a tie going to the
  even significand. The exponent is unbounded here: overflow (to infinity, or the
  \<^verbatim>\<open>OverflowError\<close> of \<^verbatim>\<open>**\<close> and \<^verbatim>\<open>math.exp\<close>), NaN and the loss of precision below
  \<open>2 powi - 1022\<close> are outside the model.
\<close>

definition round_half_even :: "real \<Rightarrow> int" where
  "round_half_even y =
     (let n = \<lfloor>y\<rfloor>; d = y - of_int n
      in if d < 1 / 2 then n else if 1 / 2 < d then n + 1
         else if even n then n else n + 1)"

definition binary64 :: "real \<Rightarrow> real" where
  "binary64 x =
     (if x = 0 then 0
      else let u = 2 powi (\<lfloor>log 2 \<bar>x\<bar>\<rfloor> - 52)
           in of_int (round_half_even (x / u)) * u)"

text \<open>
  The function once more, with the result of every arithmetic operation passed through a
  rounding operator \<open>fl\<close>. With \<open>fl\<close> the identity this is the exact arithmetic of the
  definitions above; with \<open>fl = binary64\<close> it is the arithmetic of the source on float
  inputs. A decimal literal is the double nearest to it (\<open>fl (3 / 10)\<close>); \<^verbatim>\<open>math.exp\<close> and
  \<^verbatim>\<open>** 2\<close> are taken as correctly rounded; \<^verbatim>\<open>sum\<close> adds from left to right, starting at 0
  (CPython 3.12 and later compensate the rounding error of a sum of floats, which is not
  modelled); Python ints are exact and are the reals they denote. Negation, \<^verbatim>\<open>min\<close> and
  \<^verbatim>\<open>max\<close> do not round.
\<close>

definition py_div_fl :: "(real \<Rightarrow> real) \<Rightarrow> real \<Rightarrow> real \<Rightarrow> error + real" where
  "py_div_fl fl a b = (if b = 0 then Inl ZeroDivisionError else Inr (fl (a / b)))"

definition sum_fl :: "(real \<Rightarrow> real) \<Rightarrow> real list \<Rightarrow> real" where
  "sum_fl fl xs = foldl (\<lambda>acc v. fl (acc + v)) 0 xs"

text \<open>Line 33.\<close>

definition think_ratio_term_fl :: "(real \<Rightarrow> real) \<Rightarrow> question \<Rightarrow> error + real" where
  "think_ratio_term_fl fl q =
     bind_err (need ''T_think'' (T_think q)) (\<lambda>a.
     bind_err (need ''T_total'' (T_total q)) (\<lambda>b.
     bind_err (py_div_fl fl a b) (\<lambda>r.
     Inr (fl (exp (- fl ((fl (r - fl (3 / 10))) ^ 2)))))))"

text \<open>Line 34.\<close>

definition score_ps_fl :: "(real \<Rightarrow> real) \<Rightarrow> question \<Rightarrow> error + real" where
  "score_ps_fl fl q =
     bind_err (think_ratio_term_fl fl q) (\<lambda>t.
     bind_err (need ''E_covered'' (E_covered q)) (\<lambda>c.
     bind_err (need ''E_total'' (E_total q)) (\<lambda>e.
     bind_err (py_div_fl fl c e) (\<lambda>cov.
     Inr (fl (10 * fl (fl (fl (6 / 10) * cov) + fl (fl (4 / 10) * min 1 t))))))))"

text \<open>Lines 38 to 40.\<close>

definition improvement_factor_fl :: "(real \<Rightarrow> real) \<Rightarrow> question \<Rightarrow> error + real" where
  "improvement_factor_fl fl q =
     bind_err (need ''C_initial'' (C_initial q)) (\<lambda>ci.
     bind_err (need ''C_final'' (C_final q)) (\<lambda>cf.
     bind_err (need ''C_initial'' (C_initial q)) (\<lambda>ci'.
     bind_err (need ''C_target'' (C_target q)) (\<lambda>ct.
     bind_err (py_div_fl fl (fl (ci - cf)) (fl (fl (ci' - ct) + fl epsilon))) (\<lambda>r.
     Inr (max 0 (min 1 r)))))))"

text \<open>Line 42.\<close>

definition keystroke_efficiency_fl :: "(real \<Rightarrow> real) \<Rightarrow> question \<Rightarrow> error + real" where
  "keystroke_efficiency_fl fl q =
     bind_err (need ''K_total'' (K_total q)) (\<lambda>kt.
     if kt > 0 then
       bind_err (need ''K_useful'' (K_useful q)) (\<lambda>ku.
       bind_err (need ''K_total'' (K_total q)) (\<lambda>kt'.
       py_div_fl fl ku kt'))
     else Inr 0)"

text \<open>Line 43.\<close>

definition score_code_fl :: "(real \<Rightarrow> real) \<Rightarrow> question \<Rightarrow> error + real" where
  "score_code_fl fl q =
     bind_err (improvement_factor_fl fl q) (\<lambda>f.
     bind_err (keystroke_efficiency_fl fl q) (\<lambda>k.
     bind_err (need ''S_lint'' (S_lint q)) (\<lambda>l.
     Inr (fl (10 * fl (fl (fl (fl (5 / 10) * f) + fl (fl (3 / 10) * l))
                        + fl (fl (2 / 10) * k)))))))"

text \<open>Line 47.\<close>

definition stuck_ratio_fl :: "(real \<Rightarrow> real) \<Rightarrow> question \<Rightarrow> error + real" where
  "stuck_ratio_fl fl q =
     bind_err (need ''T_total'' (T_total q)) (\<lambda>tt.
     if tt > 0 then
       bind_err (need ''T_stuck'' (T_stuck q)) (\<lambda>ts.
       bind_err (need ''T_total'' (T_total q)) (\<lambda>tt'.
       py_div_fl fl ts tt'))
     else Inr 1)"

text \<open>Line 48.\<close>

definition score_resilience_fl :: "(real \<Rightarrow> real) \<Rightarrow> question \<Rightarrow> error + real" where
  "score_resilience_fl fl q =
     bind_err (stuck_ratio_fl fl q) (\<lambda>r.
     bind_err (need ''S_sentiment'' (S_sentiment q)) (\<lambda>s.
     Inr (fl (10 * fl (fl (1 - r) * s)))))"

text \<open>The loop body, lines 32 to 53, and the loop.\<close>

definition loop_body_fl ::
  "(real \<Rightarrow> real) \<Rightarrow> loop_state \<Rightarrow> question \<Rightarrow> error + loop_state" where
  "loop_body_fl fl s q =
     bind_err (score_ps_fl fl q) (\<lambda>p.
     bind_err (score_code_fl fl q) (\<lambda>c.
     bind_err (score_resilience_fl fl q) (\<lambda>r.
     bind_err (need ''Q_difficulty'' (Q_difficulty q)) (\<lambda>d.
     Inr \<lparr>ps_scores = ps_scores s @ [p],
          code_scores = code_scores s @ [c],
          resilience_scores = resilience_scores s @ [r],
          total_hints_score = fl (total_hints_score s
            + sum_fl fl (case H_types q of None \<Rightarrow> [] | Some h \<Rightarrow> h)),
          total_difficulty = fl (total_difficulty s + d)\<rparr>))))"

fun score_loop_fl ::
  "(real \<Rightarrow> real) \<Rightarrow> loop_state \<Rightarrow> question list \<Rightarrow> error + loop_state" where
  "score_loop_fl fl s [] = Inr s"
| "score_loop_fl fl s (q # qs) =
     bind_err (loop_body_fl fl s q) (\<lambda>s'. score_loop_fl fl s' qs)"

text \<open>Lines 56 to 58.\<close>

definition average_fl :: "(real \<Rightarrow> real) \<Rightarrow> real list \<Rightarrow> nat \<Rightarrow> real" where
  "average_fl fl xs n = (if n > 0 then fl (sum_fl fl xs / real n) else 0)"

text \<open>Lines 61 to 63.\<close>

definition score_autonomy_fl :: "(real \<Rightarrow> real) \<Rightarrow> real \<Rightarrow> real \<Rightarrow> real \<Rightarrow> real" where
  "score_autonomy_fl fl hints difficulty budget =
     (let autonomy_denominator = fl (difficulty * budget)
      in fl (10 * max 0 (if autonomy_denominator > 0
                         then fl (1 - fl (hints / autonomy_denominator)) else 1)))"

text \<open>Lines 67 to 70.\<close>

definition base_score_of_fl ::
  "(real \<Rightarrow> real) \<Rightarrow> (string \<times> real) list \<Rightarrow> real \<Rightarrow> real \<Rightarrow> real \<Rightarrow> real
     \<Rightarrow> error + real" where
  "base_score_of_fl fl w p c r a =
     bind_err (need ''ps'' (map_of w ''ps'')) (\<lambda>wp.
     bind_err (need ''code'' (map_of w ''code'')) (\<lambda>wc.
     bind_err (need ''resilience'' (map_of w ''resilience'')) (\<lambda>wr.
     bind_err (need ''autonomy'' (map_of w ''autonomy'')) (\<lambda>wa.
     py_div_fl fl
       (fl (fl (fl (fl (wp * p) + fl (wc * c)) + fl (wr * r)) + fl (wa * a)))
       (sum_fl fl (map snd w))))))"

text \<open>
  Lines 66 to 86, from the three averages, the autonomy score, the total difficulty and
  the number of questions: the returned dictionary, or the exception.
\<close>

definition overall_report_fl ::
  "(real \<Rightarrow> real) \<Rightarrow> interview_config \<Rightarrow> real \<Rightarrow> real \<Rightarrow> real \<Rightarrow> real \<Rightarrow> real \<Rightarrow> nat
     \<Rightarrow> error + report" where
  "overall_report_fl fl cfg p c r a difficulty n =
     bind_err (need ''weights'' (weights cfg)) (\<lambda>w.
     bind_err (base_score_of_fl fl w p c r a) (\<lambda>b.
     let f = (if n > 0 then fl (difficulty / (3 * real n)) else 1);
         overall = fl (b * fl (fl (8 / 10) + fl (fl (4 / 10) * f)))
     in Inr \<lparr>Problem_Solving_Score = fl (py_round2 p),
             Coding_Proficiency_Score = fl (py_round2 c),
             Resilience_Score = fl (py_round2 r),
             Autonomy_Score = fl (py_round2 a),
             Overall_Score = fl (py_round2 overall),
             Details = \<lparr>Base_Score = fl (py_round2 b),
                        Difficulty_Factor = fl (py_round2 f)\<rparr>\<rparr>))"

text \<open>The whole function, lines 17 to 86.\<close>

definition calculate_scores_fl ::
  "(real \<Rightarrow> real) \<Rightarrow> question list \<Rightarrow> interview_config \<Rightarrow> error + report" where
  "calculate_scores_fl fl questions_data cfg =
     (let num_questions = length questions_data in
      bind_err (score_loop_fl fl init_state questions_data) (\<lambda>s.
      overall_report_fl fl cfg
        (average_fl fl (ps_scores s) num_questions)
        (average_fl fl (code_scores s) num_questions)
        (average_fl fl (resilience_scores s) num_questions)
        (score_autonomy_fl fl (total_hints_score s) (total_difficulty s)
           (case hint_budget cfg of None \<Rightarrow> 1 | Some b \<Rightarrow> b))
        (total_difficulty s) num_questions))"

text \<open>
  A question with sentiment \<^verbatim>\<open>0.01\<close> and nothing else but full coverage, and a
  configuration with integer weights.
\<close>

definition q_tie :: question where
  "q_tie = \<lparr>T_think = Some 3, T_total = Some 10, T_stuck = Some 0,
     E_covered = Some 4, E_total = Some 4,
     C_initial = Some 2, C_final = Some 2, C_target = Some 1,
     S_lint = Some 0, K_useful = Some 0, K_total = Some 0,
     S_sentiment = Some (binary64 (1 / 100)), H_types = Some [], Q_difficulty = Some 3\<rparr>"

definition cfg_tie :: interview_config where
  "cfg_tie = \<lparr>weights = Some [(''ps'', 0), (''code'', 1), (''resilience'', 3),
       (''autonomy'', 0)], hint_budget = Some 1\<rparr>"

section \<open>Properties\<close>

lemmas err_simps = bind_err_def need_def py_div_def

lemmas eval_defs = compute_scores_def init_state_def loop_body_def score_ps_def
      think_ratio_term_def score_code_def improvement_factor_def keystroke_efficiency_def
      score_resilience_def stuck_ratio_def hints_of_def average_def score_autonomy_def
      autonomy_term_def base_score_of_def difficulty_factor_def epsilon_def
      err_simps Let_def

lemma bind_err_Inr:
  "bind_err m f = Inr y \<longleftrightarrow> (\<exists>x. m = Inr x \<and> f x = Inr y)"
  by (cases m) (simp_all add: bind_err_def)

lemma need_Inr: "need k v = Inr x \<longleftrightarrow> v = Some x"
  by (cases v) (simp_all add: need_def)

lemma not_Inr_Inl: "(\<forall>y. m \<noteq> Inr y) \<longleftrightarrow> (\<exists>e. m = Inl e)"
  by (cases m) simp_all

subsection \<open>Rounding\<close>

lemma py_round2_exact: "py_round2 (of_int n / 100) = of_int n / 100"
  by (simp add: py_round2_def)

lemma py_round2_0: "py_round2 0 = 0"
  using py_round2_exact [of 0] by simp

lemma py_round2_1: "py_round2 1 = 1"
  using py_round2_exact [of 100] by simp

lemma py_round2_10: "py_round2 10 = 10"
  using py_round2_exact [of 1000] by simp

subsection \<open>Rounding to binary64\<close>

text \<open>How to evaluate \<open>binary64\<close> at a given number.\<close>

lemma round_half_even_near:
  assumes "\<bar>y - of_int n\<bar> < 1 / 2"
  shows "round_half_even y = n"
proof -
  have "\<lfloor>y\<rfloor> = n \<or> \<lfloor>y\<rfloor> = n - 1"
    using assms by linarith
  then show ?thesis
  proof
    assume f: "\<lfloor>y\<rfloor> = n"
    then have "y - of_int n < 1 / 2" using assms by linarith
    with f show ?thesis by (simp add: round_half_even_def Let_def)
  next
    assume f: "\<lfloor>y\<rfloor> = n - 1"
    from assms have "- (1 / 2) < y - of_int n" by linarith
    then have "1 / 2 < y - of_int (n - 1)" by simp
    with f show ?thesis by (simp add: round_half_even_def Let_def)
  qed
qed

lemma floor_log2:
  assumes "2 powi k \<le> \<bar>x\<bar>" and "\<bar>x\<bar> < 2 powi (k + 1)"
  shows "\<lfloor>log 2 \<bar>x\<bar>\<rfloor> = k"
proof -
  have "0 < (2::real) powi k" by (rule zero_less_power_int) simp
  then have p: "0 < \<bar>x\<bar>" using assms(1) by linarith
  have a: "2 powr real_of_int k = 2 powi k" "2 powr real_of_int (k + 1) = 2 powi (k + 1)"
    by (rule powr_real_of_int'; simp)+
  have "2 powr real_of_int k \<le> \<bar>x\<bar> \<and> \<bar>x\<bar> < 2 powr real_of_int (k + 1)"
    unfolding a using assms by simp
  then show ?thesis
    using floor_log_eq_powr_iff [of "\<bar>x\<bar>" 2 k] p by simp
qed

lemma binary64_near:
  assumes "2 powi k \<le> \<bar>x\<bar>" and "\<bar>x\<bar> < 2 powi (k + 1)"
    and "u = 2 powi (k - 52)" and "\<bar>x / u - of_int n\<bar> < 1 / 2"
  shows "binary64 x = of_int n * u"
proof -
  have p: "0 < (2::real) powi k" by (rule zero_less_power_int) simp
  have "x \<noteq> 0"
  proof
    assume "x = 0"
    with assms(1) have "(2::real) powi k \<le> 0" by simp
    with p show False by linarith
  qed
  then show ?thesis
    using floor_log2 [OF assms(1,2)] round_half_even_near [OF assms(4)] assms(3)
    by (simp add: binary64_def)
qed

lemma round_half_even_tie:
  assumes "y = of_int n + 1 / 2"
  shows "round_half_even y = (if even n then n else n + 1)"
proof -
  have "\<lfloor>y\<rfloor> = n" using assms by linarith
  then show ?thesis using assms by (simp add: round_half_even_def Let_def)
qed

lemma binary64_tie:
  assumes "2 powi k \<le> \<bar>x\<bar>" and "\<bar>x\<bar> < 2 powi (k + 1)"
    and "u = 2 powi (k - 52)" and "x / u = of_int n + 1 / 2"
  shows "binary64 x = of_int (if even n then n else n + 1) * u"
proof -
  have p: "0 < (2::real) powi k" by (rule zero_less_power_int) simp
  have "x \<noteq> 0"
  proof
    assume "x = 0"
    with assms(1) have "(2::real) powi k \<le> 0" by simp
    with p show False by linarith
  qed
  then show ?thesis
    using floor_log2 [OF assms(1,2)] round_half_even_tie [OF assms(4)] assms(3)
    by (simp add: binary64_def)
qed

lemma binary64_0: "binary64 0 = 0"
  by (simp add: binary64_def)

lemma binary64_scale: "binary64 (2 powi j * x) = 2 powi j * binary64 x"
proof (cases "x = 0")
  case True
  then show ?thesis by (simp add: binary64_def)
next
  case False
  define k where "k = \<lfloor>log 2 \<bar>x\<bar>\<rfloor>"
  have p: "0 < (2::real) powi j" by (rule zero_less_power_int) simp
  have "log 2 (2 powi j) = of_int j"
    using powr_real_of_int' [of 2 j] by (simp flip: powr_real_of_int')
  then have "log 2 \<bar>2 powi j * x\<bar> = of_int j + log 2 \<bar>x\<bar>"
    using False p by (simp add: abs_mult log_mult)
  then have e: "\<lfloor>log 2 \<bar>2 powi j * x\<bar>\<rfloor> = j + k"
    by (simp add: k_def)
  have u: "(2::real) powi (j + k - 52) = 2 powi j * 2 powi (k - 52)"
    by (simp add: power_int_add power_int_diff)
  have n: "2 powi j * x \<noteq> 0" using False p by simp
  have "binary64 (2 powi j * x)
      = of_int (round_half_even (2 powi j * x / (2 powi j * 2 powi (k - 52))))
          * (2 powi j * 2 powi (k - 52))"
    using n unfolding binary64_def e u Let_def by simp
  also have "\<dots> = 2 powi j * binary64 x"
    using False p unfolding binary64_def Let_def k_def by simp
  finally show ?thesis .
qed

text \<open>
  Rounding to the nearest integer: it is within \<open>1/2\<close>, monotone and odd.
\<close>

lemma round_half_even_cases:
  "round_half_even y = \<lfloor>y\<rfloor> \<or> round_half_even y = \<lfloor>y\<rfloor> + 1"
  by (simp add: round_half_even_def Let_def)

lemma round_half_even_of_int: "round_half_even (of_int n) = n"
  by (simp add: round_half_even_def)

lemma round_half_even_error: "\<bar>of_int (round_half_even y) - y\<bar> \<le> 1 / 2"
proof -
  define n where "n = \<lfloor>y\<rfloor>"
  have b: "of_int n \<le> y" "y < of_int n + 1" by (simp_all add: n_def)
  consider "y - of_int n < 1 / 2" | "1 / 2 < y - of_int n" | "y - of_int n = 1 / 2"
    by linarith
  then show ?thesis
  proof cases
    case 1
    then have "round_half_even y = n" by (simp add: round_half_even_def Let_def n_def)
    with 1 b show ?thesis by simp
  next
    case 2
    then have "round_half_even y = n + 1" by (simp add: round_half_even_def Let_def n_def)
    with 2 b show ?thesis by simp
  next
    case 3
    have "round_half_even y = n \<or> round_half_even y = n + 1"
      using round_half_even_cases [of y] by (simp add: n_def)
    with 3 show ?thesis by auto
  qed
qed

lemma round_half_even_mono:
  assumes "y \<le> z"
  shows "round_half_even y \<le> round_half_even z"
proof (cases "\<lfloor>y\<rfloor> < \<lfloor>z\<rfloor>")
  case True
  then show ?thesis
    using round_half_even_cases [of y] round_half_even_cases [of z] by linarith
next
  case False
  then have f: "\<lfloor>y\<rfloor> = \<lfloor>z\<rfloor>" using floor_mono [OF assms] by simp
  have "y - of_int \<lfloor>z\<rfloor> \<le> z - of_int \<lfloor>z\<rfloor>" using assms by simp
  then show ?thesis
    by (auto simp: round_half_even_def Let_def f)
qed

lemma round_half_even_minus: "round_half_even (- y) = - round_half_even y"
proof (cases "y \<in> \<int>")
  case True
  then obtain n where "y = of_int n" by (auto elim: Ints_cases)
  then show ?thesis
    using round_half_even_of_int [of "- n"] round_half_even_of_int [of n] by simp
next
  case False
  define n where "n = \<lfloor>y\<rfloor>"
  have "of_int n \<noteq> y" using False by (metis Ints_of_int)
  moreover have "of_int n \<le> y" "y < of_int n + 1" by (simp_all add: n_def)
  ultimately have b: "of_int n < y" "y < of_int n + 1" by simp_all
  have m: "\<lfloor>- y\<rfloor> = - n - 1"
    using b by (intro floor_unique) simp_all
  have e: "even (- n - 1) \<longleftrightarrow> odd n" by simp
  consider "y - of_int n < 1 / 2" | "1 / 2 < y - of_int n" | "y - of_int n = 1 / 2"
    by linarith
  then show ?thesis
  proof cases
    case 1
    then have "round_half_even y = n" by (simp add: round_half_even_def Let_def n_def)
    moreover have "round_half_even (- y) = - n - 1 + 1"
      using 1 by (simp add: round_half_even_def Let_def m)
    ultimately show ?thesis by simp
  next
    case 2
    then have "round_half_even y = n + 1" by (simp add: round_half_even_def Let_def n_def)
    moreover have "round_half_even (- y) = - n - 1"
      using 2 by (simp add: round_half_even_def Let_def m)
    ultimately show ?thesis by simp
  next
    case 3
    then have "round_half_even y = (if even n then n else n + 1)"
      by (simp add: round_half_even_def Let_def n_def)
    moreover have "round_half_even (- y) = (if even (- n - 1) then - n - 1 else - n - 1 + 1)"
      using 3 by (simp add: round_half_even_def Let_def m)
    ultimately show ?thesis by (simp add: e)
  qed
qed

text \<open>
  Rounding to binary64: the relative error is at most \<open>2 powi - 53\<close>, and the rounding is odd,
  monotone and idempotent.
\<close>

lemma expo_bounds:
  assumes "x \<noteq> 0"
  shows "2 powi \<lfloor>log 2 \<bar>x\<bar>\<rfloor> \<le> \<bar>x\<bar>" and "\<bar>x\<bar> < 2 powi (\<lfloor>log 2 \<bar>x\<bar>\<rfloor> + 1)"
proof -
  define k where "k = \<lfloor>log 2 \<bar>x\<bar>\<rfloor>"
  have p: "0 < \<bar>x\<bar>" using assms by simp
  have a: "2 powr real_of_int k = 2 powi k" "2 powr real_of_int (k + 1) = 2 powi (k + 1)"
    by (rule powr_real_of_int'; simp)+
  have "(\<lfloor>log 2 \<bar>x\<bar>\<rfloor> = k)
      = (2 powr real_of_int k \<le> \<bar>x\<bar> \<and> \<bar>x\<bar> < 2 powr real_of_int (k + 1))"
    by (rule floor_log_eq_powr_iff [OF p]) simp
  then have "2 powi k \<le> \<bar>x\<bar> \<and> \<bar>x\<bar> < 2 powi (k + 1)"
    unfolding a using k_def by blast
  then show "2 powi \<lfloor>log 2 \<bar>x\<bar>\<rfloor> \<le> \<bar>x\<bar>" and "\<bar>x\<bar> < 2 powi (\<lfloor>log 2 \<bar>x\<bar>\<rfloor> + 1)"
    unfolding k_def by blast+
qed

lemma binary64_nonzero:
  assumes "x \<noteq> 0"
  shows "binary64 x = of_int (round_half_even (x / 2 powi (\<lfloor>log 2 \<bar>x\<bar>\<rfloor> - 52)))
           * 2 powi (\<lfloor>log 2 \<bar>x\<bar>\<rfloor> - 52)"
  using assms by (simp add: binary64_def Let_def)

lemma ulp_pos: "0 < (2::real) powi k"
  by (rule zero_less_power_int) simp

lemma ulp_52: "(2::real) powi (k - 52) * 2 ^ 52 = 2 powi k"
  by (simp add: power_int_diff)

lemma binary64_error: "\<bar>binary64 x - x\<bar> \<le> \<bar>x\<bar> / 2 ^ 53"
proof (cases "x = 0")
  case True
  then show ?thesis by (simp add: binary64_def)
next
  case False
  define k where "k = \<lfloor>log 2 \<bar>x\<bar>\<rfloor>"
  define u :: real where "u = 2 powi (k - 52)"
  have u: "0 < u" by (simp add: u_def ulp_pos)
  have k: "2 powi k \<le> \<bar>x\<bar>" using expo_bounds(1) [OF False] by (simp add: k_def)
  have "binary64 x - x = (of_int (round_half_even (x / u)) - x / u) * u"
    using u by (simp add: binary64_nonzero [OF False] k_def u_def algebra_simps)
  then have "\<bar>binary64 x - x\<bar> = \<bar>of_int (round_half_even (x / u)) - x / u\<bar> * u"
    using u by (simp add: abs_mult)
  also have "\<dots> \<le> 1 / 2 * u"
    using round_half_even_error [of "x / u"] u by (intro mult_right_mono) simp_all
  also have "\<dots> = 2 powi k / 2 ^ 53"
    using ulp_52 [of k] by (simp add: u_def)
  also have "\<dots> \<le> \<bar>x\<bar> / 2 ^ 53"
    using k by (simp add: divide_right_mono)
  finally show ?thesis .
qed

lemma binary64_minus: "binary64 (- x) = - binary64 x"
proof (cases "x = 0")
  case True
  then show ?thesis by (simp add: binary64_def)
next
  case False
  then have "- x \<noteq> 0" by simp
  then show ?thesis
    using False
    by (simp add: binary64_nonzero [OF False] binary64_nonzero [OF \<open>- x \<noteq> 0\<close>]
        round_half_even_minus)
qed

lemma binary64_pos_range:
  assumes "0 < x"
  shows "2 powi \<lfloor>log 2 \<bar>x\<bar>\<rfloor> \<le> binary64 x" and "binary64 x \<le> 2 powi (\<lfloor>log 2 \<bar>x\<bar>\<rfloor> + 1)"
proof -
  define k where "k = \<lfloor>log 2 \<bar>x\<bar>\<rfloor>"
  define u :: real where "u = 2 powi (k - 52)"
  have n: "x \<noteq> 0" using assms by simp
  have u: "0 < u" by (simp add: u_def ulp_pos)
  have k: "2 powi k \<le> x" "x < 2 powi (k + 1)"
    using expo_bounds [OF n] assms by (simp_all add: k_def)
  have uk: "u * 2 ^ 52 = 2 powi k" unfolding u_def by (rule ulp_52)
  have uk1: "u * 2 ^ 53 = 2 powi (k + 1)"
    using uk by (simp add: power_int_add)
  have "2 ^ 52 \<le> x / u"
    using k(1) u uk by (simp add: pos_le_divide_eq mult.commute)
  then have "round_half_even (of_int (2 ^ 52)) \<le> round_half_even (x / u)"
    by (intro round_half_even_mono) simp
  then have lo: "2 ^ 52 \<le> round_half_even (x / u)"
    by (simp only: round_half_even_of_int)
  have "x / u \<le> 2 ^ 53"
    using k(2) u uk1 by (simp add: pos_divide_le_eq mult.commute)
  then have "round_half_even (x / u) \<le> round_half_even (of_int (2 ^ 53))"
    by (intro round_half_even_mono) simp
  then have hi: "round_half_even (x / u) \<le> 2 ^ 53"
    by (simp only: round_half_even_of_int)
  have b: "binary64 x = of_int (round_half_even (x / u)) * u"
    by (simp add: binary64_nonzero [OF n] k_def u_def)
  have "2 ^ 52 * u \<le> of_int (round_half_even (x / u)) * u"
    using lo u by (intro mult_right_mono) (simp_all add: of_int_le_iff [symmetric] del: of_int_le_iff)
  then show "2 powi \<lfloor>log 2 \<bar>x\<bar>\<rfloor> \<le> binary64 x"
    using uk by (simp add: b k_def [symmetric] mult.commute)
  have "of_int (round_half_even (x / u)) * u \<le> 2 ^ 53 * u"
    using hi u by (intro mult_right_mono) (simp_all add: of_int_le_iff [symmetric] del: of_int_le_iff)
  then show "binary64 x \<le> 2 powi (\<lfloor>log 2 \<bar>x\<bar>\<rfloor> + 1)"
    using uk1 by (simp add: b k_def [symmetric] mult.commute)
qed

lemma binary64_pos: "0 < x \<Longrightarrow> 0 < binary64 x"
  using binary64_pos_range(1) [of x] ulp_pos [of "\<lfloor>log 2 \<bar>x\<bar>\<rfloor>"] by linarith

lemma binary64_neg: "x < 0 \<Longrightarrow> binary64 x < 0"
  using binary64_pos [of "- x"] by (simp add: binary64_minus)

lemma binary64_mono_pos:
  assumes "0 < x" and "x \<le> y"
  shows "binary64 x \<le> binary64 y"
proof -
  define k where "k = \<lfloor>log 2 \<bar>x\<bar>\<rfloor>"
  define l where "l = \<lfloor>log 2 \<bar>y\<bar>\<rfloor>"
  have y: "0 < y" using assms by simp
  have "log 2 \<bar>x\<bar> \<le> log 2 \<bar>y\<bar>" using assms by simp
  then have kl: "k \<le> l" unfolding k_def l_def by (rule floor_mono)
  show ?thesis
  proof (cases "k = l")
    case True
    define u :: real where "u = 2 powi (k - 52)"
    have u: "0 < u" by (simp add: u_def ulp_pos)
    have "x / u \<le> y / u" using assms u by (simp add: divide_right_mono)
    then have "round_half_even (x / u) \<le> round_half_even (y / u)"
      by (rule round_half_even_mono)
    then have "of_int (round_half_even (x / u)) * u \<le> of_int (round_half_even (y / u)) * u"
      using u by (intro mult_right_mono) simp_all
    moreover have "binary64 x = of_int (round_half_even (x / u)) * u"
      using assms(1) by (simp add: binary64_nonzero k_def u_def)
    moreover have "binary64 y = of_int (round_half_even (y / u)) * u"
      using y True by (simp add: binary64_nonzero l_def u_def)
    ultimately show ?thesis by simp
  next
    case False
    with kl have "k + 1 \<le> l" by simp
    then have "(2::real) powi (k + 1) \<le> 2 powi l"
      by (intro power_int_increasing) simp_all
    moreover have "binary64 x \<le> 2 powi (k + 1)"
      using binary64_pos_range(2) [OF assms(1)] by (simp add: k_def)
    moreover have "2 powi l \<le> binary64 y"
      using binary64_pos_range(1) [OF y] by (simp add: l_def)
    ultimately show ?thesis by linarith
  qed
qed

lemma binary64_mono:
  assumes "x \<le> y"
  shows "binary64 x \<le> binary64 y"
proof -
  consider "0 < x" | "x \<le> 0" "0 \<le> y" | "y < 0" using assms by linarith
  then show ?thesis
  proof cases
    case 1
    then show ?thesis using assms by (rule binary64_mono_pos)
  next
    case 2
    have "binary64 x \<le> 0"
      using 2(1) binary64_neg [of x] binary64_0 by (cases "x = 0") auto
    moreover have "0 \<le> binary64 y"
      using 2(2) binary64_pos [of y] binary64_0 by (cases "y = 0") auto
    ultimately show ?thesis by simp
  next
    case 3
    then have "0 < - y" "- y \<le> - x" using assms by simp_all
    then have "binary64 (- y) \<le> binary64 (- x)" by (rule binary64_mono_pos)
    then show ?thesis by (simp add: binary64_minus)
  qed
qed

lemma binary64_idem_pos:
  assumes "0 < x"
  shows "binary64 (binary64 x) = binary64 x"
proof -
  define k where "k = \<lfloor>log 2 \<bar>x\<bar>\<rfloor>"
  define u :: real where "u = 2 powi (k - 52)"
  define m where "m = round_half_even (x / u)"
  have u: "0 < u" by (simp add: u_def ulp_pos)
  have uk: "u * 2 ^ 52 = 2 powi k" unfolding u_def by (rule ulp_52)
  have uk1: "u * 2 ^ 53 = 2 powi (k + 1)"
    using uk by (simp add: power_int_add)
  have b: "binary64 x = of_int m * u"
    using assms by (simp add: binary64_nonzero k_def u_def m_def)
  have r: "2 powi k \<le> binary64 x" "binary64 x \<le> 2 powi (k + 1)"
    using binary64_pos_range [OF assms] by (simp_all add: k_def)
  have p: "0 < binary64 x" using assms by (rule binary64_pos)
  show ?thesis
  proof (cases "binary64 x < 2 powi (k + 1)")
    case True
    have "binary64 (binary64 x) = of_int m * u"
    proof (rule binary64_near [of k])
      show "2 powi k \<le> \<bar>binary64 x\<bar>" using r p by simp
      show "\<bar>binary64 x\<bar> < 2 powi (k + 1)" using True p by simp
      show "u = 2 powi (k - 52)" by (simp add: u_def)
      show "\<bar>binary64 x / u - of_int m\<bar> < 1 / 2" using u by (simp add: b)
    qed
    then show ?thesis by (simp add: b)
  next
    case False
    with r have e: "binary64 x = 2 powi (k + 1)" by simp
    have "binary64 (binary64 x) = of_int (2 ^ 52) * (2 * u)"
    proof (rule binary64_near [of "k + 1"])
      show "2 powi (k + 1) \<le> \<bar>binary64 x\<bar>" by (simp add: e)
      show "\<bar>binary64 x\<bar> < 2 powi (k + 1 + 1)"
        by (simp add: e power_int_add)
      show "2 * u = 2 powi (k + 1 - 52)"
        by (simp add: u_def power_int_add power_int_diff)
      have "binary64 x = u * 2 ^ 53" using e uk1 by simp
      then have "binary64 x / (2 * u) = 2 ^ 52" using u by simp
      then show "\<bar>binary64 x / (2 * u) - of_int (2 ^ 52)\<bar> < 1 / 2" by simp
    qed
    also have "\<dots> = binary64 x"
      using uk1 by (simp add: e)
    finally show ?thesis .
  qed
qed

lemma binary64_idem: "binary64 (binary64 x) = binary64 x"
proof -
  consider "0 < x" | "x = 0" | "x < 0" by linarith
  then show ?thesis
  proof cases
    case 1
    then show ?thesis by (rule binary64_idem_pos)
  next
    case 2
    then show ?thesis by (simp add: binary64_0)
  next
    case 3
    then have "binary64 (binary64 (- x)) = binary64 (- x)"
      by (intro binary64_idem_pos) simp
    then show ?thesis by (simp add: binary64_minus)
  qed
qed

subsection \<open>Zero total time\<close>

text \<open>
  C3. The claim: a question with \<open>T_total = 0\<close> is handled, its stuck ratio falling back
  to 1, and \<open>calculate_scores\<close> completes. The guard of line 47 does give 1, but line 33
  has already divided by \<open>T_total\<close>: the call raises \<^verbatim>\<open>ZeroDivisionError\<close>.
\<close>

theorem zero_total_time_raises:
  "calculate_scores [q_zero_time] cfg1 = Inl ZeroDivisionError
   \<and> stuck_ratio q_zero_time = Inr 1
   \<and> think_ratio_term q_zero_time = Inl ZeroDivisionError"
  by (simp add: calculate_scores_def compute_scores_def init_state_def loop_body_def
      score_ps_def think_ratio_term_def stuck_ratio_def q_zero_time_def q1_def err_simps)

text \<open>The same happens whenever the first question has zero total time.\<close>

lemma zero_total_time_first:
  assumes "T_think q = Some a" and "T_total q = Some 0"
  shows "calculate_scores (q # qs) cfg = Inl ZeroDivisionError"
  using assms
  by (simp add: calculate_scores_def compute_scores_def init_state_def loop_body_def
      score_ps_def think_ratio_term_def err_simps)

subsection \<open>The improvement factor\<close>

text \<open>
  The two endpoints under a rounding operator that is monotone, idempotent and odd, commutes
  with doubling and halving, fixes 1 and has a relative error of at most \<open>2 powi - 53\<close>.
\<close>

lemma improvement_factor_fl_endpoints:
  fixes fl :: "real \<Rightarrow> real"
  assumes mono: "\<And>x y. x \<le> y \<Longrightarrow> fl x \<le> fl y"
    and idem: "\<And>x. fl (fl x) = fl x"
    and minus: "\<And>x. fl (- x) = - fl x"
    and twice: "\<And>x. fl (2 * x) = 2 * fl x"
    and half: "\<And>x. fl (x / 2) = fl x / 2"
    and err: "\<And>x. \<bar>fl x - x\<bar> \<le> \<bar>x\<bar> / 2 ^ 53"
    and one: "fl 1 = 1"
    and q: "C_initial q = Some ci" "C_final q = Some cf" "C_target q = Some ct"
  shows "(cf = ci \<and> (ct \<le> ci \<or> ci + 2 * epsilon \<le> ct) \<longrightarrow> improvement_factor_fl fl q = Inr 0)
       \<and> (cf = ct \<and> ct < ci \<longrightarrow> (\<exists>f. improvement_factor_fl fl q = Inr f \<and> 0 < f \<and> f \<le> 1))
       \<and> (cf = ct \<and> ct < ci \<and> ci - ct \<le> 1000000 \<longrightarrow>
            (\<exists>f. improvement_factor_fl fl q = Inr f \<and> 1 - 2 * epsilon / (ci - ct) < f \<and> f < 1))
       \<and> (cf = ct \<and> ci + 2 * epsilon \<le> ct \<longrightarrow> improvement_factor_fl fl q = Inr 1)
       \<and> (cf = ct \<and> ct - epsilon / 2 \<le> ci \<and> ci < ct \<longrightarrow> improvement_factor_fl fl q = Inr 0)"
proof -
  define \<delta> :: real where "\<delta> = 1 / 2 ^ 53"
  define e where "e = fl epsilon"
  define a where "a = fl (ci - ct)"
  define den where "den = fl (a + e)"
  have eps: "0 < epsilon" by (simp add: epsilon_def)
  have zero: "fl 0 = 0" using err [of 0] by simp
  have pos: "0 < fl x" if "0 < x" for x
  proof -
    have "x - fl x \<le> x / 2 ^ 53" using err [of x] that by linarith
    moreover have "x / 2 ^ 53 < x" using that by simp
    ultimately show ?thesis by linarith
  qed
  have neg: "fl x < 0" if "x < 0" for x
    using pos [of "- x"] that by (simp add: minus)
  have lo: "x * (1 - \<delta>) \<le> fl x" and hi: "fl x \<le> x * (1 + \<delta>)" if "0 \<le> x" for x
  proof -
    have "\<bar>fl x - x\<bar> \<le> x * \<delta>" using err [of x] that by (simp add: \<delta>_def)
    then have "x - x * \<delta> \<le> fl x" "fl x \<le> x + x * \<delta>" by linarith+
    then show "x * (1 - \<delta>) \<le> fl x" and "fl x \<le> x * (1 + \<delta>)"
      by (simp_all add: algebra_simps)
  qed
  have e: "0 < e" "epsilon * (1 - \<delta>) \<le> e" "e \<le> epsilon * (1 + \<delta>)"
    using pos [OF eps] lo [of epsilon] hi [of epsilon] eps by (simp_all add: e_def)
  have a_idem: "fl a = a" by (simp add: a_def idem)
  have den_ge: "a \<le> den"
    using mono [of a "a + e"] e(1) by (simp add: den_def a_idem)
  have val: "improvement_factor_fl fl q = Inr (max 0 (min 1 (fl (fl (ci - cf) / den))))"
    if "den \<noteq> 0"
    using q that by (simp add: improvement_factor_fl_def py_div_fl_def need_def bind_err_def
        den_def a_def e_def)
  have A: "improvement_factor_fl fl q = Inr 0"
    if h: "cf = ci \<and> (ct \<le> ci \<or> ci + 2 * epsilon \<le> ct)"
  proof -
    have "den \<noteq> 0"
    proof (cases "ct \<le> ci")
      case True
      then have "0 \<le> a" using mono [of 0 "ci - ct"] by (simp add: a_def zero)
      then have "0 < den" unfolding den_def using e(1) by (intro pos) simp
      then show ?thesis by simp
    next
      case False
      with h have "ci - ct \<le> - (2 * epsilon)" by simp
      then have "a \<le> fl (- (2 * epsilon))" unfolding a_def by (rule mono)
      then have "a \<le> - (2 * e)" by (simp add: minus twice e_def)
      then have "den < 0" unfolding den_def using e(1) by (intro neg) simp
      then show ?thesis by simp
    qed
    then show ?thesis using h by (simp add: val zero)
  qed
  have B: "\<exists>f. improvement_factor_fl fl q = Inr f \<and> 0 < f \<and> f \<le> 1
        \<and> (ci - ct \<le> 1000000 \<longrightarrow> 1 - 2 * epsilon / (ci - ct) < f \<and> f < 1)"
    if h: "cf = ct \<and> ct < ci"
  proof -
    define d where "d = ci - ct"
    have d: "0 < d" using h by (simp add: d_def)
    have a: "0 < a" "d * (1 - \<delta>) \<le> a" "a \<le> d * (1 + \<delta>)"
      using pos [OF d] lo [of d] hi [of d] d by (simp_all add: a_def d_def)
    have den: "0 < den" using den_ge a(1) by simp
    have s: "0 < a + e" using a(1) e(1) by simp
    have den_lo: "(a + e) * (1 - \<delta>) \<le> den" and den_hi: "den \<le> (a + e) * (1 + \<delta>)"
      using lo [of "a + e"] hi [of "a + e"] s by (simp_all add: den_def)
    define r where "r = a / den"
    have r: "0 < r" "r \<le> 1" using a(1) den den_ge by (simp_all add: r_def)
    define f where "f = fl r"
    have f: "0 < f" "f \<le> 1"
      using pos [OF r(1)] mono [OF r(2)] by (simp_all add: f_def one)
    have f_lo: "r * (1 - \<delta>) \<le> f" and f_hi: "f \<le> r * (1 + \<delta>)"
      using lo [of r] hi [of r] r(1) by (simp_all add: f_def)
    have v: "improvement_factor_fl fl q = Inr f"
      using val den h f by (simp add: f_def r_def a_def max_def min_def)
    have strict: "1 - 2 * epsilon / d < f \<and> f < 1" if b: "d \<le> 1000000"
    proof
      have dl: "0 < \<delta>" "\<delta> = 1 / 9007199254740992" by (simp_all add: \<delta>_def)
      have ab: "a \<le> 1000000 * (1 + \<delta>)"
        using a(3) b dl(1) by (meson add_pos_pos less_eq_real_def mult_right_mono order_trans zero_less_one)
      have "a * (3 * \<delta>) \<le> (1 - 3 * \<delta>) * (epsilon * (1 - \<delta>))"
      proof -
        have "a * (3 * \<delta>) \<le> 1000000 * (1 + \<delta>) * (3 * \<delta>)"
          using ab dl(1) by (intro mult_right_mono) simp_all
        also have "\<dots> \<le> (1 - 3 * \<delta>) * (epsilon * (1 - \<delta>))"
          by (simp add: dl(2) epsilon_def)
        finally show ?thesis .
      qed
      also have "\<dots> \<le> (1 - 3 * \<delta>) * e"
        using e(2) by (intro mult_left_mono) (simp_all add: dl(2))
      finally have "a \<le> (1 - 3 * \<delta>) * (a + e)" by (simp add: algebra_simps)
      also have "(1 - 3 * \<delta>) \<le> (1 - 2 * \<delta>) * (1 - \<delta>)"
        by (simp add: dl(2))
      then have "(1 - 3 * \<delta>) * (a + e) \<le> (1 - 2 * \<delta>) * (1 - \<delta>) * (a + e)"
        using s by (intro mult_right_mono) simp_all
      also have "\<dots> = (1 - 2 * \<delta>) * ((a + e) * (1 - \<delta>))" by simp
      also have "\<dots> \<le> (1 - 2 * \<delta>) * den"
        using den_lo by (intro mult_left_mono) (simp_all add: dl(2))
      finally have "r \<le> 1 - 2 * \<delta>"
        using den by (simp add: r_def pos_divide_le_eq)
      then have "r * (1 + \<delta>) \<le> (1 - 2 * \<delta>) * (1 + \<delta>)"
        using dl(1) by (intro mult_right_mono) simp_all
      also have "\<dots> < 1" by (simp add: dl(2))
      finally show "f < 1" using f_hi by linarith
    next
      have dl: "0 < \<delta>" "\<delta> = 1 / 9007199254740992" by (simp_all add: \<delta>_def)
      have fr: "(1 - \<delta>) * a \<le> f * den"
      proof -
        have "(1 - \<delta>) * a = r * (1 - \<delta>) * den" using den by (simp add: r_def)
        also have "\<dots> \<le> f * den" using f_lo den by (intro mult_right_mono) simp_all
        finally show ?thesis .
      qed
      have "(d - 2 * epsilon) * den < (1 - \<delta>) * a * d"
      proof (cases "d \<le> 2 * epsilon")
        case True
        then have "(d - 2 * epsilon) * den \<le> 0"
          using den by (simp add: mult_le_0_iff)
        moreover have "0 < (1 - \<delta>) * a * d" using a(1) d by (simp add: dl(2))
        ultimately show ?thesis by linarith
      next
        case False
        then have g: "0 < d - 2 * epsilon" by simp
        define \<beta> where "\<beta> = 2 * epsilon * (1 + \<delta>) - 2 * \<delta> * 1000000"
        have \<beta>: "(1 + \<delta>) * (1 + \<delta>) * epsilon < (1 - \<delta>) * \<beta>"
          by (simp add: \<beta>_def dl(2) epsilon_def)
        have \<beta>0: "0 < \<beta>" by (simp add: \<beta>_def dl(2) epsilon_def)
        have br: "\<beta> \<le> 2 * epsilon * (1 + \<delta>) - 2 * \<delta> * d"
          using b dl(1) by (simp add: \<beta>_def)
        have "(d - 2 * epsilon) * den \<le> (d - 2 * epsilon) * ((a + e) * (1 + \<delta>))"
          using den_hi g by (intro mult_left_mono) simp_all
        also have "\<dots> \<le> (d - 2 * epsilon) * ((a + epsilon * (1 + \<delta>)) * (1 + \<delta>))"
          using e(3) g dl(1) by (intro mult_left_mono mult_right_mono) simp_all
        also have "\<dots> = (1 - \<delta>) * a * d - a * (2 * epsilon * (1 + \<delta>) - 2 * \<delta> * d)
            + (1 + \<delta>) * (1 + \<delta>) * epsilon * (d - 2 * epsilon)"
          by (simp add: algebra_simps)
        also have "\<dots> < (1 - \<delta>) * a * d"
        proof -
          have "(1 + \<delta>) * (1 + \<delta>) * epsilon * (d - 2 * epsilon)
              \<le> (1 + \<delta>) * (1 + \<delta>) * epsilon * d"
            using eps dl(1) by (intro mult_left_mono) simp_all
          also have "\<dots> < (1 - \<delta>) * \<beta> * d"
            using \<beta> d by (intro mult_strict_right_mono) simp_all
          also have "\<dots> = d * (1 - \<delta>) * \<beta>" by simp
          also have "\<dots> \<le> a * \<beta>"
            using a(2) \<beta>0 by (intro mult_right_mono) simp_all
          also have "\<dots> \<le> a * (2 * epsilon * (1 + \<delta>) - 2 * \<delta> * d)"
            using br a(1) by (intro mult_left_mono) simp_all
          finally show ?thesis by simp
        qed
        finally show ?thesis .
      qed
      also have "\<dots> \<le> f * den * d"
        using fr d by (intro mult_right_mono) simp_all
      finally have "d - 2 * epsilon < f * d"
        using den by (simp add: mult.assoc mult.commute [of den])
      then show "1 - 2 * epsilon / d < f"
        using d by (simp add: field_simps)
    qed
    from v f strict show ?thesis unfolding d_def by blast
  qed
  have C: "improvement_factor_fl fl q = Inr 1" if h: "cf = ct \<and> ci + 2 * epsilon \<le> ct"
  proof -
    from h have "ci - ct \<le> - (2 * epsilon)" by simp
    then have "a \<le> fl (- (2 * epsilon))" unfolding a_def by (rule mono)
    then have a: "a \<le> - (2 * e)" by (simp add: minus twice e_def)
    then have den: "den < 0" unfolding den_def using e(1) by (intro neg) simp
    have "1 \<le> a / den" using den den_ge by (simp add: neg_le_divide_eq)
    then have "1 \<le> fl (a / den)" using mono [of 1 "a / den"] by (simp add: one)
    then show ?thesis using val den h by (simp add: a_def max_def min_def)
  qed
  have D: "improvement_factor_fl fl q = Inr 0"
    if h: "cf = ct \<and> ct - epsilon / 2 \<le> ci \<and> ci < ct"
  proof -
    from h have "ci - ct < 0" by simp
    then have a: "a < 0" unfolding a_def by (rule neg)
    from h have "- (epsilon / 2) \<le> ci - ct" by simp
    then have "fl (- (epsilon / 2)) \<le> a" unfolding a_def by (rule mono)
    then have "- (e / 2) \<le> a" by (simp add: minus half e_def)
    then have den: "0 < den" unfolding den_def using e(1) by (intro pos) simp
    have "a / den < 0" using a den by (simp add: divide_neg_pos)
    then have "fl (a / den) < 0" by (rule neg)
    then show ?thesis using val den h by (simp add: a_def max_def min_def)
  qed
  from A B C D show ?thesis by blast
qed

lemma improvement_factor_exact: "improvement_factor_fl (\<lambda>x. x) q = improvement_factor q"
  by (simp add: improvement_factor_fl_def improvement_factor_def py_div_fl_def py_div_def)

lemma binary64_1: "binary64 1 = 1"
  using binary64_near [of 0 1 "1 / 2 ^ 52" "4503599627370496"] by simp

lemma binary64_epsilon:
  "binary64 (1 / 1000000) = 4722366482869645 / 4722366482869645213696"
  using binary64_near [of "- 20" "1 / 1000000"
      "1 / 4722366482869645213696" "4722366482869645"]
  by simp

lemma binary64_denominator_q1:
  "binary64 (4722371205236128083341 / 4722366482869645213696)
     = 4503604130970123 / 4503599627370496"
  using binary64_near [of "0" "4722371205236128083341 / 4722366482869645213696"
      "1 / 4503599627370496" "4503604130970123"]
  by simp

lemma binary64_ratio_q1:
  "binary64 (4503599627370496 / 4503604130970123)
     = 9007190247550745 / 9007199254740992"
  using binary64_near [of "- 1" "4503599627370496 / 4503604130970123"
      "1 / 9007199254740992" "9007190247550745"]
  by simp

text \<open>
  C5 as stated: the factor is exactly 1 when \<open>C_final = C_target \<noteq> C_initial\<close>. It fails on
  the example question, where \<open>\<epsilon>\<close> in the denominator keeps the ratio below 1: it is
  \<open>1000000/1000001\<close> in exact arithmetic and the double \<^verbatim>\<open>0.9999990000010001\<close> in binary64.
\<close>

theorem improvement_factor_counterexample:
  "C_final q1 = C_target q1 \<and> C_initial q1 \<noteq> C_target q1
   \<and> improvement_factor q1 = Inr (1000000 / 1000001)
   \<and> improvement_factor q1 \<noteq> Inr 1
   \<and> improvement_factor_fl binary64 q1 = Inr (9007190247550745 / 9007199254740992)
   \<and> improvement_factor_fl binary64 q1 \<noteq> Inr 1"
proof -
  have "improvement_factor_fl binary64 q1 = Inr (9007190247550745 / 9007199254740992)"
    by (simp add: improvement_factor_fl_def q1_def epsilon_def py_div_fl_def need_def
        bind_err_def binary64_1 binary64_epsilon binary64_denominator_q1 binary64_ratio_q1)
  then show ?thesis
    by (simp add: improvement_factor_def q1_def epsilon_def err_simps)
qed

text \<open>
  C5, amended. In exact arithmetic and in binary64 arithmetic alike, with the three
  complexity fields present:
  no change (\<open>C_final = C_initial\<close>) gives exactly 0 when \<open>C_target \<le> C_initial\<close> or
  \<open>C_initial + 2\<epsilon> \<le> C_target\<close>;
  target reached (\<open>C_final = C_target\<close>) from above (\<open>C_target < C_initial\<close>) gives a factor
  that is positive and at most 1, and for \<open>d = C_initial - C_target \<le> 10\<^sup>6\<close> strictly
  between \<open>1 - 2\<epsilon>/d\<close> and 1;
  target reached from below gives exactly 1 when \<open>C_initial + 2\<epsilon> \<le> C_target\<close> and exactly 0
  when \<open>C_target - \<epsilon>/2 \<le> C_initial < C_target\<close>.
  The bounds keep clear of \<open>C_target = C_initial + \<epsilon>\<close>, where the denominator vanishes, and
  of differences so large that \<open>\<epsilon>\<close> is lost against them in floating point.
\<close>

theorem improvement_factor_endpoints:
  assumes "C_initial q = Some ci" and "C_final q = Some cf" and "C_target q = Some ct"
    and "fl = binary64 \<or> fl = (\<lambda>x. x)"
  shows "improvement_factor_fl (\<lambda>x. x) q = improvement_factor q
       \<and> (cf = ci \<and> (ct \<le> ci \<or> ci + 2 * epsilon \<le> ct) \<longrightarrow> improvement_factor_fl fl q = Inr 0)
       \<and> (cf = ct \<and> ct < ci \<longrightarrow> (\<exists>f. improvement_factor_fl fl q = Inr f \<and> 0 < f \<and> f \<le> 1))
       \<and> (cf = ct \<and> ct < ci \<and> ci - ct \<le> 1000000 \<longrightarrow>
            (\<exists>f. improvement_factor_fl fl q = Inr f \<and> 1 - 2 * epsilon / (ci - ct) < f \<and> f < 1))
       \<and> (cf = ct \<and> ci + 2 * epsilon \<le> ct \<longrightarrow> improvement_factor_fl fl q = Inr 1)
       \<and> (cf = ct \<and> ct - epsilon / 2 \<le> ci \<and> ci < ct \<longrightarrow> improvement_factor_fl fl q = Inr 0)"
proof -
  have twice: "binary64 (2 * x) = 2 * binary64 x" for x
    using binary64_scale [of 1 x] by simp
  have half: "binary64 (x / 2) = binary64 x / 2" for x
    using binary64_scale [of "- 1" x] by simp
  from assms(4) have "(cf = ci \<and> (ct \<le> ci \<or> ci + 2 * epsilon \<le> ct) \<longrightarrow> improvement_factor_fl fl q = Inr 0)
       \<and> (cf = ct \<and> ct < ci \<longrightarrow> (\<exists>f. improvement_factor_fl fl q = Inr f \<and> 0 < f \<and> f \<le> 1))
       \<and> (cf = ct \<and> ct < ci \<and> ci - ct \<le> 1000000 \<longrightarrow>
            (\<exists>f. improvement_factor_fl fl q = Inr f \<and> 1 - 2 * epsilon / (ci - ct) < f \<and> f < 1))
       \<and> (cf = ct \<and> ci + 2 * epsilon \<le> ct \<longrightarrow> improvement_factor_fl fl q = Inr 1)
       \<and> (cf = ct \<and> ct - epsilon / 2 \<le> ci \<and> ci < ct \<longrightarrow> improvement_factor_fl fl q = Inr 0)"
  proof
    assume f: "fl = binary64"
    show ?thesis
      unfolding f
      by (rule improvement_factor_fl_endpoints [OF binary64_mono binary64_idem binary64_minus
            twice half binary64_error binary64_1 assms(1-3)])
  next
    assume f: "fl = (\<lambda>x. x)"
    show ?thesis
      unfolding f
      by (rule improvement_factor_fl_endpoints [OF _ _ _ _ _ _ _ assms(1-3)]) simp_all
  qed
  then show ?thesis by (simp add: improvement_factor_exact)
qed

theorem improvement_factor_endpoints_witness:
  "improvement_factor_fl binary64 (q1\<lparr>C_final := Some 2\<rparr>) = Inr 0
   \<and> improvement_factor (q1\<lparr>C_final := Some 2\<rparr>) = Inr 0
   \<and> improvement_factor_fl binary64 (q1\<lparr>C_final := Some 2, C_target := Some 3\<rparr>) = Inr 0
   \<and> (\<exists>f. improvement_factor_fl binary64 q1 = Inr f \<and> 1 - 2 * epsilon / (2 - 1) < f \<and> f < 1)
   \<and> (\<exists>f. improvement_factor q1 = Inr f \<and> 1 - 2 * epsilon / (2 - 1) < f \<and> f < 1)
   \<and> improvement_factor_fl binary64 (q1\<lparr>C_initial := Some 0\<rparr>) = Inr 1
   \<and> improvement_factor (q1\<lparr>C_initial := Some 0\<rparr>) = Inr 1
   \<and> improvement_factor_fl binary64 (q1\<lparr>C_initial := Some (3999999 / 4000000)\<rparr>) = Inr 0
   \<and> improvement_factor (q1\<lparr>C_initial := Some (3999999 / 4000000)\<rparr>) = Inr 0"
  using improvement_factor_endpoints [of "q1\<lparr>C_final := Some 2\<rparr>" 2 2 1 binary64]
    improvement_factor_endpoints [of "q1\<lparr>C_final := Some 2\<rparr>" 2 2 1 "\<lambda>x. x"]
    improvement_factor_endpoints [of "q1\<lparr>C_final := Some 2, C_target := Some 3\<rparr>" 2 2 3 binary64]
    improvement_factor_endpoints [of q1 2 1 1 binary64]
    improvement_factor_endpoints [of q1 2 1 1 "\<lambda>x. x"]
    improvement_factor_endpoints [of "q1\<lparr>C_initial := Some 0\<rparr>" 0 1 1 binary64]
    improvement_factor_endpoints [of "q1\<lparr>C_initial := Some 0\<rparr>" 0 1 1 "\<lambda>x. x"]
    improvement_factor_endpoints [of "q1\<lparr>C_initial := Some (3999999 / 4000000)\<rparr>"
      "3999999 / 4000000" 1 1 binary64]
    improvement_factor_endpoints [of "q1\<lparr>C_initial := Some (3999999 / 4000000)\<rparr>"
      "3999999 / 4000000" 1 1 "\<lambda>x. x"]
  by (simp add: q1_def epsilon_def)

subsection \<open>Autonomy\<close>

text \<open>
  C7. For a fixed difficulty total and hint budget whose product is positive, the autonomy
  score does not increase when the hint total grows, and it is never negative, whatever the
  hint total.
\<close>

theorem score_autonomy_monotone_nonneg:
  assumes "0 < difficulty * budget" and "h1 \<le> h2"
  shows "score_autonomy h2 difficulty budget \<le> score_autonomy h1 difficulty budget
       \<and> 0 \<le> score_autonomy h difficulty budget"
proof -
  from assms have "h1 / (difficulty * budget) \<le> h2 / (difficulty * budget)"
    by (simp add: divide_right_mono)
  then show ?thesis
    using assms(1) by (simp add: score_autonomy_def autonomy_term_def)
qed

theorem score_autonomy_monotone_nonneg_witness:
  "(0::real) < 2 * 1 \<and> (1::real) \<le> 3 \<and> score_autonomy 3 2 1 \<le> score_autonomy 1 2 1
     \<and> 0 \<le> score_autonomy 5 2 1 \<and> score_autonomy 1 2 1 = 5 \<and> score_autonomy 3 2 1 = 0"
  using score_autonomy_monotone_nonneg [of 2 1 1 3 5]
  by (simp add: score_autonomy_def autonomy_term_def)

subsection \<open>Resilience\<close>

text \<open>
  C9. A question whose sentiment is 0 has resilience score exactly 0, whatever its stuck
  ratio is.
\<close>

theorem score_resilience_zero_sentiment:
  assumes "T_total q = Some tt" and "T_stuck q = Some ts" and "S_sentiment q = Some 0"
  shows "score_resilience q = Inr 0"
  using assms by (simp add: score_resilience_def stuck_ratio_def err_simps)

theorem score_resilience_zero_sentiment_witness:
  "score_resilience (q1\<lparr>S_sentiment := Some 0\<rparr>) = Inr 0
   \<and> stuck_ratio (q1\<lparr>S_sentiment := Some 0\<rparr>) = Inr (3 / 40)"
  using score_resilience_zero_sentiment [of "q1\<lparr>S_sentiment := Some 0\<rparr>" 600 45]
  by (simp add: q1_def stuck_ratio_def err_simps)

subsection \<open>No questions\<close>

text \<open>
  C8. On the empty list of questions, with a configuration that has the four weights and a
  positive weight sum, the call returns a report: the three averages are 0 and the
  difficulty factor is 1, before and after rounding.
\<close>

theorem empty_interview:
  assumes "weights cfg = Some w"
    and "map_of w ''ps'' = Some wp" and "map_of w ''code'' = Some wc"
    and "map_of w ''resilience'' = Some wr" and "map_of w ''autonomy'' = Some wa"
    and "0 < sum_list (map snd w)"
  shows "\<exists>s. compute_scores [] cfg = Inr s
           \<and> calculate_scores [] cfg = Inr (compile_report s)
           \<and> avg_score_ps s = 0 \<and> avg_score_code s = 0 \<and> avg_score_resilience s = 0
           \<and> factor s = 1
           \<and> Problem_Solving_Score (compile_report s) = 0
           \<and> Coding_Proficiency_Score (compile_report s) = 0
           \<and> Resilience_Score (compile_report s) = 0
           \<and> Difficulty_Factor (Details (compile_report s)) = 1"
proof -
  define b where "b = (wa * score_autonomy 0 0 (case hint_budget cfg of None \<Rightarrow> 1 | Some h \<Rightarrow> h))
                        / sum_list (map snd w)"
  define s where "s = \<lparr>avg_score_ps = 0, avg_score_code = 0, avg_score_resilience = 0,
      autonomy = score_autonomy 0 0 (case hint_budget cfg of None \<Rightarrow> 1 | Some h \<Rightarrow> h),
      base_score = b, factor = 1, score_overall = b * (8 / 10 + 4 / 10 * 1)\<rparr>"
  have cs: "compute_scores [] cfg = Inr s"
    using assms
    by (simp add: compute_scores_def base_score_of_def init_state_def average_def
        difficulty_factor_def err_simps s_def b_def Let_def)
  have "calculate_scores [] cfg = Inr (compile_report s)"
    by (simp add: calculate_scores_def cs bind_err_def)
  moreover have "avg_score_ps s = 0" "avg_score_code s = 0" "avg_score_resilience s = 0"
    "factor s = 1"
    by (simp_all add: s_def)
  ultimately show ?thesis
    using cs by (intro exI [of _ s]) (simp add: compile_report_def py_round2_0 py_round2_1)
qed

theorem empty_interview_witness:
  "\<exists>s. compute_scores [] cfg1 = Inr s
           \<and> calculate_scores [] cfg1 = Inr (compile_report s)
           \<and> avg_score_ps s = 0 \<and> avg_score_code s = 0 \<and> avg_score_resilience s = 0
           \<and> factor s = 1
           \<and> Problem_Solving_Score (compile_report s) = 0
           \<and> Coding_Proficiency_Score (compile_report s) = 0
           \<and> Resilience_Score (compile_report s) = 0
           \<and> Difficulty_Factor (Details (compile_report s)) = 1"
  using empty_interview [of cfg1 "[(''ps'', 4 / 10), (''code'', 3 / 10),
       (''resilience'', 1 / 10), (''autonomy'', 2 / 10)]" "4/10" "3/10" "1/10" "2/10"]
  by (simp add: cfg1_def)

subsection \<open>The overall score\<close>





lemma compute_best:
  "compute_scores [q_best] cfg1 =
     Inr \<lparr>avg_score_ps = 10, avg_score_code = 10000005 / 1000001,
          avg_score_resilience = 10, autonomy = 10,
          base_score = 20000017 / 2000002, factor = 5 / 3,
          score_overall = 220000187 / 15000015\<rparr>"
  by (simp add: eval_defs q_best_def cfg1_def)

lemma round_overall_best: "py_round2 (220000187 / 15000015) = 1467 / 100"
  by (simp add: py_round2_def Let_def)

lemma round_base_best: "py_round2 (20000017 / 2000002) = 10"
  by (simp add: py_round2_def Let_def)



lemma calculate_best:
  "calculate_scores [q_best] cfg1 =
     Inr \<lparr>Problem_Solving_Score = 10, Coding_Proficiency_Score = 10,
          Resilience_Score = 10, Autonomy_Score = 10, Overall_Score = 1467 / 100,
          Details = \<lparr>Base_Score = 10, Difficulty_Factor = 167 / 100\<rparr>\<rparr>"
  by (simp add: calculate_scores_def compute_best bind_err_def compile_report_def
      round_overall_best round_base_best py_round2_10)
    (simp add: py_round2_def Let_def)

subsection \<open>Missing keys\<close>

lemma score_ps_reads:
  assumes "score_ps q = Inr p"
  shows "T_think q \<noteq> None \<and> T_total q \<noteq> None \<and> E_covered q \<noteq> None \<and> E_total q \<noteq> None"
  using assms by (auto simp: score_ps_def think_ratio_term_def bind_err_Inr need_Inr)

lemma score_code_reads:
  assumes "score_code q = Inr c"
  shows "C_initial q \<noteq> None \<and> C_final q \<noteq> None \<and> C_target q \<noteq> None \<and> K_total q \<noteq> None
       \<and> S_lint q \<noteq> None
       \<and> \<not> (K_useful q = None \<and> (case K_total q of None \<Rightarrow> False | Some k \<Rightarrow> 0 < k))"
  using assms
  by (auto simp: score_code_def improvement_factor_def keystroke_efficiency_def
      bind_err_Inr need_Inr split: if_splits)

lemma score_resilience_reads:
  assumes "score_resilience q = Inr r"
  shows "S_sentiment q \<noteq> None
       \<and> \<not> (T_stuck q = None \<and> (case T_total q of None \<Rightarrow> False | Some t \<Rightarrow> 0 < t))"
  using assms
  by (auto simp: score_resilience_def stuck_ratio_def bind_err_Inr need_Inr split: if_splits)

lemma loop_body_reads:
  assumes "loop_body s q = Inr s'"
  shows "\<not> lacks_read_field q"
proof -
  from assms obtain p c r d where
    "score_ps q = Inr p" "score_code q = Inr c" "score_resilience q = Inr r"
    "Q_difficulty q = Some d"
    by (auto simp: loop_body_def bind_err_Inr need_Inr)
  then show ?thesis
    using score_ps_reads [of q p] score_code_reads [of q c] score_resilience_reads [of q r]
    by (simp add: lacks_read_field_def)
qed

lemma score_loop_reads:
  "score_loop s qs = Inr s' \<Longrightarrow> q \<in> set qs \<Longrightarrow> \<not> lacks_read_field q"
proof (induction qs arbitrary: s)
  case Nil
  then show ?case by simp
next
  case (Cons x xs)
  then obtain s1 where b: "loop_body s x = Inr s1" and l: "score_loop s1 xs = Inr s'"
    by (auto simp: bind_err_Inr)
  show ?case
  proof (cases "q = x")
    case True
    then show ?thesis using loop_body_reads [OF b] by simp
  next
    case False
    then have "q \<in> set xs" using Cons.prems(2) by simp
    then show ?thesis using Cons.IH [OF l] by simp
  qed
qed

lemma compute_scores_reads:
  assumes "compute_scores qs cfg = Inr s"
  shows "(\<forall>q \<in> set qs. \<not> lacks_read_field q) \<and> \<not> lacks_weight cfg"
proof -
  from assms obtain st w b where
    l: "score_loop init_state qs = Inr st" and w: "weights cfg = Some w" and
    b: "base_score_of w (average (ps_scores st) (length qs))
          (average (code_scores st) (length qs))
          (average (resilience_scores st) (length qs))
          (score_autonomy (total_hints_score st) (total_difficulty st)
             (case hint_budget cfg of None \<Rightarrow> 1 | Some b \<Rightarrow> b)) = Inr b"
    unfolding compute_scores_def Let_def bind_err_Inr need_Inr by auto
  from b have "map_of w ''ps'' \<noteq> None \<and> map_of w ''code'' \<noteq> None
      \<and> map_of w ''resilience'' \<noteq> None \<and> map_of w ''autonomy'' \<noteq> None"
    by (auto simp: base_score_of_def bind_err_Inr need_Inr)
  then have "\<not> lacks_weight cfg" using w by (simp add: lacks_weight_def)
  then show ?thesis using score_loop_reads [OF l] by blast
qed

lemma hints_default: "hints_of (q\<lparr>H_types := None\<rparr>) = hints_of (q\<lparr>H_types := Some []\<rparr>)"
  by (simp add: hints_of_def)

lemma scores_ignore_hints:
  "score_ps (q\<lparr>H_types := h\<rparr>) = score_ps q"
  "score_code (q\<lparr>H_types := h\<rparr>) = score_code q"
  "score_resilience (q\<lparr>H_types := h\<rparr>) = score_resilience q"
  by (simp_all add: score_ps_def think_ratio_term_def score_code_def
      improvement_factor_def keystroke_efficiency_def score_resilience_def stuck_ratio_def
      cong: if_cong)

lemma loop_body_hints_default:
  "loop_body s (q\<lparr>H_types := None\<rparr>) = loop_body s (q\<lparr>H_types := Some []\<rparr>)"
  by (simp add: loop_body_def scores_ignore_hints hints_of_def)

lemma compute_no_hints:
  "compute_scores [q_no_hints] cfg_no_budget = compute_scores [q_best] cfg1"
  by (simp add: eval_defs q_no_hints_def cfg_no_budget_def q_best_def cfg1_def)

lemma calculate_no_keys:
  "calculate_scores [q_no_keys] cfg1 =
     Inr \<lparr>Problem_Solving_Score = 10, Coding_Proficiency_Score = 8,
          Resilience_Score = 10, Autonomy_Score = 10, Overall_Score = 1379 / 100,
          Details = \<lparr>Base_Score = 94 / 10, Difficulty_Factor = 167 / 100\<rparr>\<rparr>"
  by (simp add: calculate_scores_def eval_defs q_no_keys_def q_best_def cfg1_def
      compile_report_def py_round2_def)

text \<open>
  C6 as stated: every missing field makes the call fail, none is replaced by a default.
  It fails on a question with no \<^verbatim>\<open>H_types\<close> and a configuration with no
  \<^verbatim>\<open>hint_budget\<close>: the call returns the report it returns with \<^verbatim>\<open>H_types = []\<close> and
  \<^verbatim>\<open>hint_budget = 1.0\<close>. It also returns on a question with no \<^verbatim>\<open>K_useful\<close> whose
  \<^verbatim>\<open>K_total\<close> is 0, since line 42 then never reads \<^verbatim>\<open>K_useful\<close>.
\<close>

theorem missing_field_counterexample:
  "H_types q_no_hints = None \<and> hint_budget cfg_no_budget = None
   \<and> calculate_scores [q_no_hints] cfg_no_budget =
       Inr \<lparr>Problem_Solving_Score = 10, Coding_Proficiency_Score = 10,
            Resilience_Score = 10, Autonomy_Score = 10, Overall_Score = 1467 / 100,
            Details = \<lparr>Base_Score = 10, Difficulty_Factor = 167 / 100\<rparr>\<rparr>
   \<and> K_useful q_no_keys = None
   \<and> calculate_scores [q_no_keys] cfg1 =
       Inr \<lparr>Problem_Solving_Score = 10, Coding_Proficiency_Score = 8,
            Resilience_Score = 10, Autonomy_Score = 10, Overall_Score = 1379 / 100,
            Details = \<lparr>Base_Score = 94 / 10, Difficulty_Factor = 167 / 100\<rparr>\<rparr>"
proof -
  have "calculate_scores [q_no_hints] cfg_no_budget = calculate_scores [q_best] cfg1"
    by (simp add: calculate_scores_def compute_no_hints)
  then show ?thesis
    by (simp add: calculate_best calculate_no_keys)
      (simp add: q_no_hints_def cfg_no_budget_def q_no_keys_def)
qed

lemma loop_body_fill_hints: "loop_body s (fill_hints q) = loop_body s q"
  by (cases "H_types q")
    (simp_all add: fill_hints_def loop_body_def scores_ignore_hints hints_of_def)

lemma score_loop_fill_hints: "score_loop s (map fill_hints qs) = score_loop s qs"
  by (induction qs arbitrary: s) (simp_all add: loop_body_fill_hints)

lemma compute_scores_fill_hints:
  "compute_scores (map fill_hints qs) cfg = compute_scores qs cfg"
  by (simp add: compute_scores_def score_loop_fill_hints)

text \<open>
  C6, amended. If some question lacks a key that the loop body reads (any key but
  \<^verbatim>\<open>H_types\<close>; \<^verbatim>\<open>K_useful\<close> and \<^verbatim>\<open>T_stuck\<close> count only when \<^verbatim>\<open>K_total > 0\<close>,
  \<^verbatim>\<open>T_total > 0\<close>), or the configuration lacks \<^verbatim>\<open>weights\<close> or one of the four weights,
  the call raises. A missing \<^verbatim>\<open>H_types\<close> is the empty list, in whichever questions of
  the list it is missing, and a missing \<^verbatim>\<open>hint_budget\<close> is 1.
\<close>

theorem missing_field_behaviour:
  "((\<exists>q \<in> set qs. lacks_read_field q) \<or> lacks_weight cfg
      \<longrightarrow> (\<exists>e. calculate_scores qs cfg = Inl e))
   \<and> calculate_scores (map fill_hints qs) cfg = calculate_scores qs cfg
   \<and> calculate_scores (qs @ q\<lparr>H_types := None\<rparr> # qs') cfg
       = calculate_scores (qs @ q\<lparr>H_types := Some []\<rparr> # qs') cfg
   \<and> calculate_scores qs (cfg\<lparr>hint_budget := None\<rparr>)
       = calculate_scores qs (cfg\<lparr>hint_budget := Some 1\<rparr>)"
proof (intro conjI impI)
  assume h: "(\<exists>q \<in> set qs. lacks_read_field q) \<or> lacks_weight cfg"
  have "compute_scores qs cfg \<noteq> Inr s" for s
    using compute_scores_reads [of qs cfg s] h by blast
  then obtain e where "compute_scores qs cfg = Inl e"
    using not_Inr_Inl [of "compute_scores qs cfg"] by blast
  then show "\<exists>e. calculate_scores qs cfg = Inl e"
    by (simp add: calculate_scores_def bind_err_def)
next
  show "calculate_scores (map fill_hints qs) cfg = calculate_scores qs cfg"
    by (simp add: calculate_scores_def compute_scores_fill_hints)
next
  let ?a = "qs @ q\<lparr>H_types := None\<rparr> # qs'" and ?b = "qs @ q\<lparr>H_types := Some []\<rparr> # qs'"
  have "map fill_hints ?a = map fill_hints ?b"
    by (simp add: fill_hints_def)
  then have "compute_scores ?a cfg = compute_scores ?b cfg"
    using compute_scores_fill_hints [of ?a cfg] compute_scores_fill_hints [of ?b cfg]
    by simp
  then show "calculate_scores ?a cfg = calculate_scores ?b cfg"
    by (simp add: calculate_scores_def)
next
  show "calculate_scores qs (cfg\<lparr>hint_budget := None\<rparr>)
       = calculate_scores qs (cfg\<lparr>hint_budget := Some 1\<rparr>)"
    by (simp add: calculate_scores_def compute_scores_def)
qed

theorem missing_field_behaviour_witness:
  "lacks_read_field (q1\<lparr>S_lint := None\<rparr>)
   \<and> (\<exists>e. calculate_scores [q_best, q1\<lparr>S_lint := None\<rparr>] cfg1 = Inl e)
   \<and> calculate_scores [q1\<lparr>S_lint := None\<rparr>] cfg1 = Inl (KeyError ''S_lint'')
   \<and> calculate_scores [q_best, q_best\<lparr>H_types := Some []\<rparr>] cfg1
       = calculate_scores [q_best, q_no_hints] cfg1
   \<and> calculate_scores [q1, q_best\<lparr>H_types := None\<rparr>, q1] cfg1
       = calculate_scores [q1, q_best\<lparr>H_types := Some []\<rparr>, q1] cfg1
   \<and> calculate_scores [q_best] (cfg1\<lparr>hint_budget := None\<rparr>)
       = calculate_scores [q_best] (cfg1\<lparr>hint_budget := Some 1\<rparr>)"
  using missing_field_behaviour [of "[q_best, q1\<lparr>S_lint := None\<rparr>]" cfg1 q_best "[]"]
    missing_field_behaviour [of "[q_best, q_no_hints]" cfg1 q_best "[]"]
    missing_field_behaviour [of "[q1]" cfg1 q_best "[q1]"]
    missing_field_behaviour [of "[q_best]" cfg1 q_best "[]"]
  by (simp add: lacks_read_field_def q1_def calculate_scores_def compute_scores_def
      init_state_def loop_body_def score_ps_def think_ratio_term_def score_code_def
      improvement_factor_def keystroke_efficiency_def epsilon_def err_simps
      fill_hints_def q_no_hints_def q_best_def)

subsection \<open>The example question of the source\<close>

lemma exp_hundredth_lower: "99 / 100 \<le> exp (- (1 / 100) :: real)"
  using exp_ge_add_one_self [of "- (1 / 100) :: real"] by simp

lemma exp_hundredth_upper: "exp (- (1 / 100) :: real) \<le> 100 / 101"
proof -
  have "1 + 1 / 100 \<le> exp (1 / 100 :: real)"
    by (rule exp_ge_add_one_self)
  then have "1 / exp (1 / 100 :: real) \<le> 1 / (1 + 1 / 100)"
    by (intro divide_left_mono) simp_all
  then show ?thesis by (simp add: exp_minus inverse_eq_divide)
qed

lemma py_round2_down:
  assumes "of_int n \<le> x * 100" and "x * 100 < of_int n + 1 / 2"
  shows "py_round2 x = of_int n / 100"
proof -
  have "\<lfloor>x * 100\<rfloor> = n"
    using assms by (intro floor_unique) simp_all
  then show ?thesis
    using assms by (simp add: py_round2_def Let_def)
qed

lemma py_round2_up:
  assumes "of_int n + 1 / 2 < x * 100" and "x * 100 < of_int n + 1"
  shows "py_round2 x = of_int (n + 1) / 100"
proof -
  have "\<lfloor>x * 100\<rfloor> = n"
    using assms by (intro floor_unique) simp_all
  then show ?thesis
    using assms by (simp add: py_round2_def Let_def)
qed

lemma compute_q1:
  "compute_scores [q1] cfg1 = Inr (q1_scores (exp (- (1 / 100))))"
proof -
  have e: "exp (- ((1 / 10 :: real)\<^sup>2)) = exp (- (1 / 100))"
    by (simp add: power2_eq_square)
  show ?thesis
    by (simp add: eval_defs q1_def cfg1_def q1_scores_def e)
qed

lemma q1_scores_bounds:
  assumes "99 / 100 \<le> t" and "t \<le> 100 / 101"
  shows "of_int 846 \<le> avg_score_ps (q1_scores t) * 100"
    and "avg_score_ps (q1_scores t) * 100 < of_int 846 + 1 / 2"
    and "of_int 782 + 1 / 2 < base_score (q1_scores t) * 100"
    and "base_score (q1_scores t) * 100 < of_int 782 + 1"
    and "of_int 834 + 1 / 2 < score_overall (q1_scores t) * 100"
    and "score_overall (q1_scores t) * 100 < of_int 834 + 1"
proof -
  have p: "avg_score_ps (q1_scores t) * 100 = 450 + 400 * t"
    by (simp add: q1_scores_def Let_def)
  have b: "base_score (q1_scores t) * 100
      = 180 + 160 * t + 30 * (1981000881 / 220000220) + 74 + 100"
    by (simp add: q1_scores_def Let_def add_divide_distrib)
  have o: "score_overall (q1_scores t) * 100 = base_score (q1_scores t) * 100 * (16 / 15)"
    by (simp add: q1_scores_def Let_def)
  show "of_int 846 \<le> avg_score_ps (q1_scores t) * 100"
    and "avg_score_ps (q1_scores t) * 100 < of_int 846 + 1 / 2"
    unfolding p using assms by simp_all
  show b1: "of_int 782 + 1 / 2 < base_score (q1_scores t) * 100"
    and b2: "base_score (q1_scores t) * 100 < of_int 782 + 1"
    unfolding b using assms by simp_all
  have "782536 / 1000 < base_score (q1_scores t) * 100"
    unfolding b using assms by simp
  then show "of_int 834 + 1 / 2 < score_overall (q1_scores t) * 100"
    unfolding o by simp
  have "base_score (q1_scores t) * 100 < 782553 / 1000"
    unfolding b using assms by simp
  then show "score_overall (q1_scores t) * 100 < of_int 834 + 1"
    unfolding o by simp
qed

lemma compile_q1:
  assumes "99 / 100 \<le> t" and "t \<le> 100 / 101"
  shows "compile_report (q1_scores t) = q1_report"
proof -
  note bs = q1_scores_bounds [OF assms]
  have p: "py_round2 (avg_score_ps (q1_scores t)) = 846 / 100"
    using py_round2_down [OF bs(1) bs(2)] by simp
  have c: "py_round2 (avg_score_code (q1_scores t)) = 9"
    using py_round2_down [of 900 "avg_score_code (q1_scores t)"]
    by (simp add: q1_scores_def Let_def)
  have r: "py_round2 (avg_score_resilience (q1_scores t)) = 74 / 10"
    using py_round2_exact [of 740] by (simp add: q1_scores_def Let_def)
  have a: "py_round2 (autonomy (q1_scores t)) = 5"
    using py_round2_exact [of 500] by (simp add: q1_scores_def Let_def)
  have b: "py_round2 (base_score (q1_scores t)) = 783 / 100"
    using py_round2_up [OF bs(3) bs(4)] by simp
  have o: "py_round2 (score_overall (q1_scores t)) = 835 / 100"
    using py_round2_up [OF bs(5) bs(6)] by simp
  have f: "py_round2 (factor (q1_scores t)) = 67 / 100"
    using py_round2_up [of 66 "factor (q1_scores t)"]
    by (simp add: q1_scores_def Let_def)
  show ?thesis
    by (simp add: compile_report_def q1_report_def p c r a b o f)
qed

lemma calculate_q1: "calculate_scores [q1] cfg1 = Inr q1_report"
  using compile_q1 [OF exp_hundredth_lower exp_hundredth_upper]
  by (simp add: calculate_scores_def compute_q1 bind_err_def)


text \<open>
  C4 as stated: on the single question \<open>q1\<close> with \<open>cfg1\<close> the call returns Problem-Solving
  about 7.75, Coding Proficiency about 8.35 and Resilience about 6.20. Each of the three
  returned values is more than 0.5 above the stated one.
\<close>

theorem reference_scenario_counterexample:
  "calculate_scores [q1] cfg1 = Inr q1_report
   \<and> 1 / 2 < Problem_Solving_Score q1_report - 775 / 100
   \<and> 1 / 2 < Coding_Proficiency_Score q1_report - 835 / 100
   \<and> 1 / 2 < Resilience_Score q1_report - 620 / 100"
  by (simp add: calculate_q1) (simp add: q1_report_def)

text \<open>
  C4, amended. On \<open>q1\<close> with \<open>cfg1\<close> the call returns Problem-Solving 8.46, Coding
  Proficiency 9.00, Resilience 7.40, Autonomy 5.00 (hint total 1, budget 2), Overall 8.35,
  base score 7.83 and difficulty factor 0.67; unrounded, the difficulty factor is \<open>2/3\<close>,
  the autonomy score 5, the resilience average 7.4, the problem-solving average lies in
  \<open>[8.46, 8.465)\<close> and the coding average in \<open>(9, 9.005)\<close>.
\<close>

theorem reference_scenario:
  "calculate_scores [q1] cfg1 =
     Inr \<lparr>Problem_Solving_Score = 846 / 100, Coding_Proficiency_Score = 9,
          Resilience_Score = 74 / 10, Autonomy_Score = 5, Overall_Score = 835 / 100,
          Details = \<lparr>Base_Score = 783 / 100, Difficulty_Factor = 67 / 100\<rparr>\<rparr>
   \<and> (\<exists>s. compute_scores [q1] cfg1 = Inr s \<and> factor s = 2 / 3 \<and> autonomy s = 5
          \<and> avg_score_resilience s = 74 / 10
          \<and> 846 / 100 \<le> avg_score_ps s \<and> avg_score_ps s < 8465 / 1000
          \<and> 9 < avg_score_code s \<and> avg_score_code s < 9005 / 1000)
   \<and> hints_of q1 = 1 \<and> score_autonomy 1 2 1 = 5"
proof -
  let ?s = "q1_scores (exp (- (1 / 100)))"
  have r: "calculate_scores [q1] cfg1 =
     Inr \<lparr>Problem_Solving_Score = 846 / 100, Coding_Proficiency_Score = 9,
          Resilience_Score = 74 / 10, Autonomy_Score = 5, Overall_Score = 835 / 100,
          Details = \<lparr>Base_Score = 783 / 100, Difficulty_Factor = 67 / 100\<rparr>\<rparr>"
    by (simp add: calculate_q1) (simp add: q1_report_def)
  have p: "846 / 100 \<le> avg_score_ps ?s" "avg_score_ps ?s < 8465 / 1000"
    using q1_scores_bounds(1,2) [OF exp_hundredth_lower exp_hundredth_upper] by simp_all
  have s: "factor ?s = 2 / 3" "autonomy ?s = 5" "avg_score_resilience ?s = 74 / 10"
    "9 < avg_score_code ?s" "avg_score_code ?s < 9005 / 1000"
    by (simp_all add: q1_scores_def Let_def)
  have e: "\<exists>s. compute_scores [q1] cfg1 = Inr s \<and> factor s = 2 / 3 \<and> autonomy s = 5
          \<and> avg_score_resilience s = 74 / 10
          \<and> 846 / 100 \<le> avg_score_ps s \<and> avg_score_ps s < 8465 / 1000
          \<and> 9 < avg_score_code s \<and> avg_score_code s < 9005 / 1000"
    using compute_q1 p s by blast
  have h: "hints_of q1 = 1" "score_autonomy 1 2 1 = 5"
    by (simp_all add: hints_of_def q1_def score_autonomy_def autonomy_term_def)
  from r e h show ?thesis by blast
qed


subsection \<open>The range of the scores\<close>

lemma score_ps_range:
  assumes "valid_question q"
  shows "\<exists>p. score_ps q = Inr p \<and> in_range p"
proof -
  from assms obtain tk tt ec et where
    f: "T_think q = Some tk" "T_total q = Some tt" "E_covered q = Some ec" "E_total q = Some et"
    by (auto simp: valid_question_def)
  with assms have b: "0 < tt" "0 \<le> ec" "ec \<le> et" "0 < et"
    by (simp_all add: valid_question_def)
  define t where "t = min 1 (exp (- ((tk / tt - 3 / 10)\<^sup>2)))"
  have t: "0 \<le> t" "t \<le> 1" by (simp_all add: t_def)
  have c: "0 \<le> ec / et" "ec / et \<le> 1" using b by simp_all
  have "score_ps q = Inr (10 * (6 / 10 * (ec / et) + 4 / 10 * t))"
    using f b by (simp add: score_ps_def think_ratio_term_def err_simps t_def)
  moreover have "in_range (10 * (6 / 10 * (ec / et) + 4 / 10 * t))"
    unfolding in_range_def using t c by simp
  ultimately show ?thesis by blast
qed

lemma score_code_range:
  assumes "valid_question q" and "\<not> at_pole q"
  shows "\<exists>c. score_code q = Inr c \<and> in_range c"
proof -
  from assms(1) obtain ci cf ct sl ku kt where
    f: "C_initial q = Some ci" "C_final q = Some cf" "C_target q = Some ct"
       "S_lint q = Some sl" "K_useful q = Some ku" "K_total q = Some kt"
    by (auto simp: valid_question_def)
  with assms(1) have b: "0 \<le> ku" "ku \<le> kt" "0 \<le> sl" "sl \<le> 1"
    by (simp_all add: valid_question_def)
  from assms(2) f have d: "ci - ct + epsilon \<noteq> 0"
    by (simp add: at_pole_def)
  define i where "i = max 0 (min 1 ((ci - cf) / (ci - ct + epsilon)))"
  define k where "k = (if 0 < kt then ku / kt else 0)"
  have i: "0 \<le> i" "i \<le> 1" by (simp_all add: i_def)
  have k: "0 \<le> k" "k \<le> 1" using b by (simp_all add: k_def)
  have "score_code q = Inr (10 * (5 / 10 * i + 3 / 10 * sl + 2 / 10 * k))"
    using f d
    by (simp add: score_code_def improvement_factor_def keystroke_efficiency_def
        err_simps i_def k_def)
  moreover have "in_range (10 * (5 / 10 * i + 3 / 10 * sl + 2 / 10 * k))"
    unfolding in_range_def using i k b by simp
  ultimately show ?thesis by blast
qed

lemma score_resilience_range:
  assumes "valid_question q"
  shows "\<exists>r. score_resilience q = Inr r \<and> in_range r"
proof -
  from assms obtain tt ts ss where
    f: "T_total q = Some tt" "T_stuck q = Some ts" "S_sentiment q = Some ss"
    by (auto simp: valid_question_def)
  with assms have b: "0 < tt" "0 \<le> ts" "ts \<le> tt" "0 \<le> ss" "ss \<le> 1"
    by (simp_all add: valid_question_def)
  have r: "0 \<le> 1 - ts / tt" "1 - ts / tt \<le> 1" using b by simp_all
  have "0 \<le> (1 - ts / tt) * ss" using r b by simp
  moreover have "(1 - ts / tt) * ss \<le> 1 * 1"
    using r b by (intro mult_mono) simp_all
  ultimately have "in_range (10 * ((1 - ts / tt) * ss))"
    by (simp add: in_range_def)
  moreover have "score_resilience q = Inr (10 * ((1 - ts / tt) * ss))"
    using f b by (simp add: score_resilience_def stuck_ratio_def err_simps)
  ultimately show ?thesis by blast
qed

lemma hints_nonneg:
  assumes "valid_question q"
  shows "0 \<le> hints_of q"
proof -
  from assms obtain h where h: "H_types q = Some h" "list_all (\<lambda>x. 0 \<le> x) h"
    by (auto simp: valid_question_def)
  then have "0 \<le> sum_list h"
    by (intro sum_list_nonneg) (simp add: list_all_iff)
  then show ?thesis using h by (simp add: hints_of_def)
qed

lemma loop_body_inv:
  assumes "valid_question q" and "\<not> at_pole q" and "loop_inv n s"
  shows "\<exists>s'. loop_body s q = Inr s' \<and> loop_inv (Suc n) s'"
proof -
  from score_ps_range [OF assms(1)] obtain p where p: "score_ps q = Inr p" "in_range p"
    by blast
  from score_code_range [OF assms(1,2)] obtain c where c: "score_code q = Inr c" "in_range c"
    by blast
  from score_resilience_range [OF assms(1)] obtain r where
    r: "score_resilience q = Inr r" "in_range r"
    by blast
  from assms(1) obtain d where d: "Q_difficulty q = Some d" "0 < d"
    by (auto simp: valid_question_def)
  have h: "0 \<le> hints_of q" by (rule hints_nonneg [OF assms(1)])
  show ?thesis
    using p c r d h assms(3) by (simp add: loop_body_def err_simps loop_inv_def)
qed

lemma score_loop_inv:
  assumes "list_all valid_question qs" and "\<not> list_ex at_pole qs" and "loop_inv n s"
  shows "\<exists>s'. score_loop s qs = Inr s' \<and> loop_inv (n + length qs) s'"
  using assms
proof (induction qs arbitrary: s n)
  case Nil
  then show ?case by simp
next
  case (Cons q qs)
  from Cons.prems have q: "valid_question q" "\<not> at_pole q"
    and qs: "list_all valid_question qs" "\<not> list_ex at_pole qs"
    by simp_all
  from loop_body_inv [OF q Cons.prems(3)] obtain s1 where
    s1: "loop_body s q = Inr s1" "loop_inv (Suc n) s1"
    by blast
  from Cons.IH [OF qs s1(2)] obtain s' where
    "score_loop s1 qs = Inr s'" "loop_inv (Suc n + length qs) s'"
    by blast
  with s1 show ?case by (simp add: bind_err_def)
qed

lemma sum_list_range:
  "list_all in_range xs \<Longrightarrow> 0 \<le> sum_list xs \<and> sum_list xs \<le> 10 * real (length xs)"
  by (induction xs) (auto simp: in_range_def)

lemma average_range:
  assumes "list_all in_range xs" and "length xs = n"
  shows "in_range (average xs n)"
proof (cases "0 < n")
  case True
  from sum_list_range [OF assms(1)] assms(2)
  have "0 \<le> sum_list xs" "sum_list xs \<le> 10 * real n" by simp_all
  with True have "0 \<le> sum_list xs / real n" "sum_list xs / real n \<le> 10"
    by (simp_all add: divide_le_eq)
  with True show ?thesis by (simp add: average_def in_range_def)
next
  case False
  then show ?thesis by (simp add: average_def in_range_def)
qed

lemma score_autonomy_range:
  assumes "0 \<le> h" and "0 \<le> d"
  shows "in_range (score_autonomy h d b)"
proof (cases "0 < d * b")
  case True
  with assms have "0 \<le> h / (d * b)" by simp
  with True show ?thesis
    by (simp add: score_autonomy_def autonomy_term_def in_range_def)
next
  case False
  then show ?thesis by (simp add: score_autonomy_def autonomy_term_def in_range_def)
qed

lemma looked_up_weights_le:
  assumes "finite K" and "list_all (\<lambda>kv. 0 \<le> snd kv) (w :: (string \<times> real) list)"
  shows "(\<Sum>k\<in>K. case map_of w k of None \<Rightarrow> 0 | Some v \<Rightarrow> v) \<le> sum_list (map snd w)"
  using assms
proof (induction w arbitrary: K)
  case Nil
  then show ?case by simp
next
  case (Cons kv w)
  obtain a v where kv: "kv = (a, v)" by (cases kv)
  from Cons.prems kv have v: "0 \<le> v" and w: "list_all (\<lambda>kv. 0 \<le> snd kv) w"
    by simp_all
  let ?f = "\<lambda>k. case map_of w k of None \<Rightarrow> 0 | Some v \<Rightarrow> v"
  let ?g = "\<lambda>k. case map_of (kv # w) k of None \<Rightarrow> 0 | Some v \<Rightarrow> v"
  show ?case
  proof (cases "a \<in> K")
    case True
    have "sum ?g K = ?g a + sum ?g (K - {a})"
      using Cons.prems(1) True by (rule sum.remove)
    also have "?g a = v" by (simp add: kv)
    also have "sum ?g (K - {a}) = sum ?f (K - {a})"
      by (rule sum.cong) (auto simp: kv)
    also have "sum ?f (K - {a}) \<le> sum_list (map snd w)"
      using Cons.prems(1) w by (intro Cons.IH) simp_all
    finally show ?thesis by (simp add: kv)
  next
    case False
    have "sum ?g K = sum ?f K"
      by (rule sum.cong) (use False in \<open>auto simp: kv\<close>)
    also have "\<dots> \<le> sum_list (map snd w)"
      using Cons.prems(1) w by (rule Cons.IH)
    finally show ?thesis using v by (simp add: kv)
  qed
qed

lemma lookup_nonneg:
  assumes "list_all (\<lambda>kv. 0 \<le> snd kv) (w :: (string \<times> real) list)" and "map_of w k = Some v"
  shows "0 \<le> v"
  using assms map_of_SomeD [OF assms(2)] by (auto simp: list_all_iff)

lemma base_score_range:
  assumes w: "list_all (\<lambda>kv. 0 \<le> snd kv) w"
    and s: "0 < sum_list (map snd w)"
    and k: "map_of w ''ps'' = Some wp" "map_of w ''code'' = Some wc"
      "map_of w ''resilience'' = Some wr" "map_of w ''autonomy'' = Some wa"
    and r: "in_range p" "in_range c" "in_range r" "in_range a"
  shows "\<exists>b. base_score_of w p c r a = Inr b \<and> in_range b"
proof -
  let ?S = "sum_list (map snd w)"
  let ?n = "wp * p + wc * c + wr * r + wa * a"
  have n: "0 \<le> wp" "0 \<le> wc" "0 \<le> wr" "0 \<le> wa"
    using lookup_nonneg [OF w] k by blast+
  have "(\<Sum>k\<in>{''ps'', ''code'', ''resilience'', ''autonomy''}.
           case map_of w k of None \<Rightarrow> 0 | Some v \<Rightarrow> v) \<le> ?S"
    using w by (intro looked_up_weights_le) simp_all
  then have t: "wp + wc + wr + wa \<le> ?S"
    using k by simp
  have "wp * p \<le> wp * 10" "wc * c \<le> wc * 10" "wr * r \<le> wr * 10" "wa * a \<le> wa * 10"
    using n r by (simp_all add: in_range_def mult_left_mono)
  then have "?n \<le> 10 * (wp + wc + wr + wa)" by (simp add: algebra_simps)
  also have "\<dots> \<le> 10 * ?S" using t by simp
  finally have u: "?n \<le> 10 * ?S" .
  have l: "0 \<le> ?n" using n r by (simp add: in_range_def)
  have "in_range (?n / ?S)"
    using l u s by (simp add: in_range_def divide_le_eq)
  moreover have "base_score_of w p c r a = Inr (?n / ?S)"
    using k s by (simp add: base_score_of_def err_simps)
  ultimately show ?thesis by blast
qed

lemma py_round2_range:
  assumes "in_range x"
  shows "in_range (py_round2 x)"
proof -
  define n where "n = \<lfloor>x * 100\<rfloor>"
  from assms have x: "0 \<le> x * 100" "x * 100 \<le> 1000" by (simp_all add: in_range_def)
  have n0: "0 \<le> n" using x(1) by (simp add: n_def)
  have n1: "n \<le> 1000" using x(2) unfolding n_def by (simp add: floor_le_iff)
  have up: "1 / 2 \<le> x * 100 - real_of_int n \<Longrightarrow> n + 1 \<le> 1000"
  proof -
    assume "1 / 2 \<le> x * 100 - real_of_int n"
    with x(2) have "real_of_int n < 1000" by simp
    then show ?thesis by simp
  qed
  have "py_round2 x = real_of_int n / 100 \<or> (py_round2 x = real_of_int (n + 1) / 100
          \<and> 1 / 2 \<le> x * 100 - real_of_int n)"
    by (simp add: py_round2_def Let_def n_def)
  then show ?thesis
  proof
    assume "py_round2 x = real_of_int n / 100"
    with n0 n1 show ?thesis by (simp add: in_range_def)
  next
    assume a: "py_round2 x = real_of_int (n + 1) / 100 \<and> 1 / 2 \<le> x * 100 - real_of_int n"
    with up have "n + 1 \<le> 1000" by simp
    with n0 a show ?thesis by (simp add: in_range_def)
  qed
qed

lemma compute_scores_range:
  assumes "list_all valid_question qs" and "valid_config cfg" and "\<not> list_ex at_pole qs"
  shows "\<exists>s. compute_scores qs cfg = Inr s
     \<and> in_range (avg_score_ps s) \<and> in_range (avg_score_code s)
     \<and> in_range (avg_score_resilience s) \<and> in_range (autonomy s)
     \<and> in_range (base_score s)"
proof -
  have "loop_inv 0 init_state" by (simp add: loop_inv_def init_state_def)
  from score_loop_inv [OF assms(1,3) this] obtain s where
    s: "score_loop init_state qs = Inr s" "loop_inv (length qs) s"
    by auto
  define p where "p = average (ps_scores s) (length qs)"
  define c where "c = average (code_scores s) (length qs)"
  define r where "r = average (resilience_scores s) (length qs)"
  define a where "a = score_autonomy (total_hints_score s) (total_difficulty s)
                (case hint_budget cfg of None \<Rightarrow> 1 | Some b \<Rightarrow> b)"
  have p: "in_range p"
    unfolding p_def using s(2) by (intro average_range) (simp_all add: loop_inv_def)
  have c: "in_range c"
    unfolding c_def using s(2) by (intro average_range) (simp_all add: loop_inv_def)
  have r: "in_range r"
    unfolding r_def using s(2) by (intro average_range) (simp_all add: loop_inv_def)
  have a: "in_range a"
    unfolding a_def using s(2) by (intro score_autonomy_range) (simp_all add: loop_inv_def)
  from assms(2) obtain w wp wc wr wa where
    w: "weights cfg = Some w" "list_all (\<lambda>kv. 0 \<le> snd kv) w" "0 < sum_list (map snd w)"
      "map_of w ''ps'' = Some wp" "map_of w ''code'' = Some wc"
      "map_of w ''resilience'' = Some wr" "map_of w ''autonomy'' = Some wa"
    by (auto simp: valid_config_def split: option.splits)
  from base_score_range [OF w(2-7) p c r a] obtain b where
    b: "base_score_of w p c r a = Inr b" "in_range b"
    by blast
  have "compute_scores qs cfg =
      Inr \<lparr>avg_score_ps = p, avg_score_code = c, avg_score_resilience = r,
           autonomy = a, base_score = b,
           factor = difficulty_factor (total_difficulty s) (length qs),
           score_overall =
             b * (8 / 10 + 4 / 10 * difficulty_factor (total_difficulty s) (length qs))\<rparr>"
    using s(1) w(1) b(1)
    by (simp add: compute_scores_def Let_def bind_err_def need_def p_def c_def r_def a_def)
  with p c r a b(2) show ?thesis by simp
qed

text \<open>
  On every input that meets the contract and has no question with
  \<^verbatim>\<open>C_target = C_initial + epsilon\<close>, the call returns a report, and the four competency
  scores and the base score lie in \<open>[0,10]\<close>, before rounding and after.
\<close>

lemma calculate_scores_range:
  assumes "list_all valid_question qs" and "valid_config cfg" and "\<not> list_ex at_pole qs"
  shows "\<exists>s. compute_scores qs cfg = Inr s
     \<and> calculate_scores qs cfg = Inr (compile_report s)
     \<and> in_range (avg_score_ps s) \<and> in_range (avg_score_code s)
     \<and> in_range (avg_score_resilience s) \<and> in_range (autonomy s)
     \<and> in_range (base_score s)
     \<and> in_range (Problem_Solving_Score (compile_report s))
     \<and> in_range (Coding_Proficiency_Score (compile_report s))
     \<and> in_range (Resilience_Score (compile_report s))
     \<and> in_range (Autonomy_Score (compile_report s))
     \<and> in_range (Base_Score (Details (compile_report s)))"
proof -
  from compute_scores_range [OF assms] obtain s where
    s: "compute_scores qs cfg = Inr s"
      "in_range (avg_score_ps s)" "in_range (avg_score_code s)"
      "in_range (avg_score_resilience s)" "in_range (autonomy s)" "in_range (base_score s)"
    by blast
  have "calculate_scores qs cfg = Inr (compile_report s)"
    using s(1) by (simp add: calculate_scores_def bind_err_def)
  moreover have "in_range (Problem_Solving_Score (compile_report s))"
    using s(2) by (simp add: compile_report_def py_round2_range)
  moreover have "in_range (Coding_Proficiency_Score (compile_report s))"
    using s(3) by (simp add: compile_report_def py_round2_range)
  moreover have "in_range (Resilience_Score (compile_report s))"
    using s(4) by (simp add: compile_report_def py_round2_range)
  moreover have "in_range (Autonomy_Score (compile_report s))"
    using s(5) by (simp add: compile_report_def py_round2_range)
  moreover have "in_range (Base_Score (Details (compile_report s)))"
    using s(6) by (simp add: compile_report_def py_round2_range)
  ultimately show ?thesis using s by blast
qed

text \<open>
  C1: for every input that meets the contract, the four competency scores and the base
  score of \<open>calculate_scores\<close> lie in \<open>[0,10]\<close>. The question \<open>q_pole\<close> with the example
  configuration meets the contract, and on it the call produces no score at all: the
  denominator \<^verbatim>\<open>C_initial - C_target + epsilon\<close> of line 39 is zero and line 40 raises
  \<^verbatim>\<open>ZeroDivisionError\<close>, although \<^verbatim>\<open>epsilon\<close> is there, by the comment of line 17, to
  prevent division by zero.
\<close>

theorem contract_input_raises:
  "list_all valid_question [q_pole] \<and> valid_config cfg1
   \<and> calculate_scores [q_pole] cfg1 = Inl ZeroDivisionError"
  by (simp add: valid_question_def valid_config_def q_pole_def q1_def cfg1_def
      calculate_scores_def eval_defs)


subsection \<open>Scaling the weights\<close>

text \<open>With the identity for \<open>fl\<close> the rounded functions are the exact ones.\<close>

lemma sum_fl_exact_aux: "foldl (\<lambda>acc v. acc + v) a xs = a + sum_list (xs :: real list)"
  by (induction xs arbitrary: a) simp_all

lemma sum_fl_exact: "sum_fl (\<lambda>x. x) xs = sum_list xs"
  by (simp add: sum_fl_def sum_fl_exact_aux)

lemma py_div_fl_exact: "py_div_fl (\<lambda>x. x) = py_div"
  by (intro ext) (simp add: py_div_fl_def py_div_def)

lemma base_score_of_fl_exact: "base_score_of_fl (\<lambda>x. x) w p c r a = base_score_of w p c r a"
  by (simp add: base_score_of_fl_def base_score_of_def py_div_fl_exact sum_fl_exact)

lemma calculate_scores_tail:
  "calculate_scores qs cfg =
     bind_err (score_loop init_state qs) (\<lambda>s.
       overall_report_fl (\<lambda>x. x) cfg (average (ps_scores s) (length qs))
         (average (code_scores s) (length qs)) (average (resilience_scores s) (length qs))
         (score_autonomy (total_hints_score s) (total_difficulty s)
            (case hint_budget cfg of None \<Rightarrow> 1 | Some b \<Rightarrow> b))
         (total_difficulty s) (length qs))"
proof (cases "score_loop init_state qs")
  case (Inl e)
  then show ?thesis
    by (simp add: calculate_scores_def compute_scores_def bind_err_def)
next
  case (Inr s)
  show ?thesis
  proof (cases "weights cfg")
    case None
    with Inr show ?thesis
      by (simp add: calculate_scores_def compute_scores_def overall_report_fl_def
          bind_err_def need_def)
  next
    case (Some w)
    let ?b = "base_score_of w (average (ps_scores s) (length qs))
         (average (code_scores s) (length qs)) (average (resilience_scores s) (length qs))
         (score_autonomy (total_hints_score s) (total_difficulty s)
            (case hint_budget cfg of None \<Rightarrow> 1 | Some b \<Rightarrow> b))"
    show ?thesis
    proof (cases ?b)
      case (Inl e)
      with Inr Some show ?thesis
        by (simp add: calculate_scores_def compute_scores_def overall_report_fl_def
            bind_err_def need_def base_score_of_fl_exact Let_def)
    next
      case b: (Inr b)
      with Inr Some show ?thesis
        by (simp add: calculate_scores_def compute_scores_def overall_report_fl_def
            bind_err_def need_def base_score_of_fl_exact Let_def compile_report_def
            difficulty_factor_def)
    qed
  qed
qed

lemma per_question_exact:
  "score_ps_fl (\<lambda>x. x) q = score_ps q"
  "score_code_fl (\<lambda>x. x) q = score_code q"
  "score_resilience_fl (\<lambda>x. x) q = score_resilience q"
  by (simp_all add: score_ps_fl_def score_ps_def think_ratio_term_fl_def think_ratio_term_def
      score_code_fl_def score_code_def improvement_factor_fl_def improvement_factor_def
      keystroke_efficiency_fl_def keystroke_efficiency_def score_resilience_fl_def
      score_resilience_def stuck_ratio_fl_def stuck_ratio_def py_div_fl_exact cong: if_cong)

lemma loop_body_exact: "loop_body_fl (\<lambda>x. x) s q = loop_body s q"
  by (simp add: loop_body_fl_def loop_body_def per_question_exact sum_fl_exact hints_of_def)

lemma score_loop_exact: "score_loop_fl (\<lambda>x. x) s qs = score_loop s qs"
  by (induction qs arbitrary: s) (simp_all add: loop_body_exact)

lemma calculate_scores_exact: "calculate_scores_fl (\<lambda>x. x) qs cfg = calculate_scores qs cfg"
  by (simp add: calculate_scores_fl_def calculate_scores_tail score_loop_exact average_fl_def
      average_def sum_fl_exact score_autonomy_fl_def score_autonomy_def autonomy_term_def
      Let_def cong: if_cong)

text \<open>
  Scaling the four weights by \<open>c\<close> changes nothing when the rounding commutes with the
  multiplication by \<open>c\<close> and the dictionary has no other entry.
\<close>

lemma map_of_scaled:
  assumes "key \<in> set named_weights"
  shows "map_of (map (\<lambda>(k, v). if k \<in> set named_weights then (k, c * v) else (k, v)) w) key
       = map_option (\<lambda>v. c * v) (map_of w key)"
  using assms by (induction w) auto

lemma snd_scaled:
  assumes "list_all (\<lambda>kv. fst kv \<in> set named_weights) w"
  shows "map snd (map (\<lambda>(k, v). if k \<in> set named_weights then (k, c * v) else (k, v)) w)
       = map (\<lambda>v. c * v) (map snd w)"
  using assms by (induction w) auto

lemma sum_fl_scaled_aux:
  assumes "\<forall>x. fl (c * x) = c * fl x"
  shows "foldl (\<lambda>acc v. fl (acc + v)) (c * a) (map (\<lambda>v. c * v) xs)
       = c * foldl (\<lambda>acc v. fl (acc + v)) a (xs :: real list)"
proof (induction xs arbitrary: a)
  case Nil
  show ?case by simp
next
  case (Cons x xs)
  have "fl (c * a + c * x) = c * fl (a + x)"
    using assms by (simp flip: distrib_left)
  then show ?case using Cons.IH [of "fl (a + x)"] by simp
qed

lemma sum_fl_scaled:
  assumes "\<forall>x. fl (c * x) = c * fl x"
  shows "sum_fl fl (map (\<lambda>v. c * v) xs) = c * sum_fl fl xs"
  using sum_fl_scaled_aux [OF assms, of 0 xs] by (simp add: sum_fl_def)

lemma base_score_of_fl_scaled:
  assumes h: "\<forall>x. fl (c * x) = c * fl x" and c: "c \<noteq> 0"
    and n: "list_all (\<lambda>kv. fst kv \<in> set named_weights) w"
  shows "base_score_of_fl fl
           (map (\<lambda>(k, v). if k \<in> set named_weights then (k, c * v) else (k, v)) w) p q r a
         = base_score_of_fl fl w p q r a"
proof -
  have m: "fl (c * x * y) = c * fl (x * y)" for x y
    using h by (simp add: mult.assoc)
  have s: "fl (c * x + c * y) = c * fl (x + y)" for x y
    using h by (simp flip: distrib_left)
  have d: "py_div_fl fl (c * x) (c * y) = py_div_fl fl x y" for x y
    using c by (simp add: py_div_fl_def)
  have k: "''ps'' \<in> set named_weights" "''code'' \<in> set named_weights"
    "''resilience'' \<in> set named_weights" "''autonomy'' \<in> set named_weights"
    by (simp_all add: named_weights_def)
  show ?thesis
    unfolding base_score_of_fl_def snd_scaled [OF n] sum_fl_scaled [OF h]
      map_of_scaled [OF k(1)] map_of_scaled [OF k(2)] map_of_scaled [OF k(3)]
      map_of_scaled [OF k(4)]
    by (cases "map_of w ''ps''"; cases "map_of w ''code''";
        cases "map_of w ''resilience''"; cases "map_of w ''autonomy''")
      (simp_all add: need_def bind_err_def m s d)
qed

lemma overall_report_fl_scaled:
  assumes "\<forall>x. fl (c * x) = c * fl x" and "c \<noteq> 0" and "only_named_weights cfg"
  shows "overall_report_fl fl (scale_weights c cfg) p q r a d n
       = overall_report_fl fl cfg p q r a d n"
proof (cases "weights cfg")
  case None
  then show ?thesis by (simp add: overall_report_fl_def scale_weights_def)
next
  case (Some w)
  with assms(3) have n: "list_all (\<lambda>kv. fst kv \<in> set named_weights) w"
    by (simp add: only_named_weights_def)
  show ?thesis
    using Some
    by (simp add: overall_report_fl_def scale_weights_def need_def bind_err_def
        base_score_of_fl_scaled [OF assms(1,2) n])
qed

lemma calculate_scores_fl_scaled:
  assumes "\<forall>x. fl (c * x) = c * fl x" and "c \<noteq> 0" and "only_named_weights cfg"
  shows "calculate_scores_fl fl qs (scale_weights c cfg) = calculate_scores_fl fl qs cfg"
proof -
  have "hint_budget (scale_weights c cfg) = hint_budget cfg"
    by (simp add: scale_weights_def)
  then show ?thesis
    by (simp add: calculate_scores_fl_def overall_report_fl_scaled [OF assms])
qed

lemma compute_scores_scaled:
  assumes "c \<noteq> 0" and "only_named_weights cfg"
  shows "compute_scores qs (scale_weights c cfg) = compute_scores qs cfg"
proof (cases "weights cfg")
  case None
  then show ?thesis
    by (simp add: compute_scores_def scale_weights_def)
next
  case (Some w)
  with assms(2) have n: "list_all (\<lambda>kv. fst kv \<in> set named_weights) w"
    by (simp add: only_named_weights_def)
  have "base_score_of
          (map (\<lambda>(k, v). if k \<in> set named_weights then (k, c * v) else (k, v)) w) p q r a
        = base_score_of w p q r a" for p q r a
    using base_score_of_fl_scaled [of "\<lambda>x. x" c w p q r a, OF _ assms(1) n]
    by (simp add: base_score_of_fl_exact)
  with Some show ?thesis
    unfolding compute_scores_def scale_weights_def
    by (simp add: need_def bind_err_def cong: sum.case_cong)
qed

text \<open>The values of \<open>binary64\<close> and of \<^verbatim>\<open>round\<close> that the example below passes through.\<close>

lemma b64_1:
  "binary64 (1 / 1000000)
     = 4722366482869645 / 4722366482869645213696"
  using binary64_near [of "- 20" "1 / 1000000"
      "1 / 4722366482869645213696" "4722366482869645"]
  by simp

lemma b64_2:
  "binary64 (1 / 100)
     = 5764607523034235 / 576460752303423488"
  using binary64_near [of "- 7" "1 / 100"
      "1 / 576460752303423488" "5764607523034235"]
  by simp

lemma b64_3:
  "binary64 (5764607523034235 / 576460752303423488)
     = 5764607523034235 / 576460752303423488"
  using binary64_near [of "- 7" "5764607523034235 / 576460752303423488"
      "1 / 576460752303423488" "5764607523034235"]
  by simp

lemma b64_4:
  "binary64 (7 / 100)
     = 1261007895663739 / 18014398509481984"
  using binary64_near [of "- 4" "7 / 100"
      "1 / 72057594037927936" "5044031582654956"]
  by simp

lemma b64_5:
  "binary64 (8106479329266893 / 108086391056891904)
     = 5404319552844595 / 72057594037927936"
  using binary64_near [of "- 4" "8106479329266893 / 108086391056891904"
      "1 / 72057594037927936" "5404319552844595"]
  by simp

lemma b64_6:
  "binary64 (1351079888211149 / 18014398509481984)
     = 1351079888211149 / 18014398509481984"
  using binary64_near [of "- 4" "1351079888211149 / 18014398509481984"
      "1 / 72057594037927936" "5404319552844596"]
  by simp

lemma b64_7:
  "binary64 (2 / 25)
     = 5764607523034235 / 72057594037927936"
  using binary64_near [of "- 4" "2 / 25"
      "1 / 72057594037927936" "5764607523034235"]
  by simp

lemma b64_8:
  "binary64 (9 / 100)
     = 3242591731706757 / 36028797018963968"
  using binary64_near [of "- 4" "9 / 100"
      "1 / 72057594037927936" "6485183463413514"]
  by simp

lemma b64_9:
  "binary64 (7301667457314602163268943389655 / 81129638414606681695789005144064)
     = 6485183463413515 / 72057594037927936"
  using binary64_near [of "- 4" "7301667457314602163268943389655 / 81129638414606681695789005144064"
      "1 / 72057594037927936" "6485183463413515"]
  by simp

lemma b64_10:
  "binary64 (1825416864328650878587207900201 / 20282409603651670423947251286016)
     = 1621295865853379 / 18014398509481984"
  using binary64_near [of "- 4" "1825416864328650878587207900201 / 20282409603651670423947251286016"
      "1 / 72057594037927936" "6485183463413516"]
  by simp

lemma b64_11:
  "binary64 (1 / 10)
     = 3602879701896397 / 36028797018963968"
  using binary64_near [of "- 4" "1 / 10"
      "1 / 72057594037927936" "7205759403792794"]
  by simp

lemma b64_12:
  "binary64 (28823037615171175 / 288230376151711744)
     = 3602879701896397 / 36028797018963968"
  using binary64_near [of "- 4" "28823037615171175 / 288230376151711744"
      "1 / 72057594037927936" "7205759403792794"]
  by simp

lemma b64_13:
  "binary64 (3602879701896397 / 36028797018963968)
     = 3602879701896397 / 36028797018963968"
  using binary64_near [of "- 4" "3602879701896397 / 36028797018963968"
      "1 / 72057594037927936" "7205759403792794"]
  by simp

lemma b64_14:
  "binary64 (1 / 5)
     = 3602879701896397 / 18014398509481984"
  using binary64_near [of "- 3" "1 / 5"
      "1 / 36028797018963968" "7205759403792794"]
  by simp

lemma b64_15:
  "binary64 (3 / 10)
     = 5404319552844595 / 18014398509481984"
  using binary64_near [of "- 2" "3 / 10"
      "1 / 18014398509481984" "5404319552844595"]
  by simp

lemma b64_16:
  "binary64 (10808639105689191 / 36028797018963968)
     = 1351079888211149 / 4503599627370496"
  using binary64_tie [of "- 2" "10808639105689191 / 36028797018963968"
      "1 / 18014398509481984" "5404319552844595"]
  by simp

lemma b64_17:
  "binary64 (1351079888211149 / 4503599627370496)
     = 1351079888211149 / 4503599627370496"
  using binary64_near [of "- 2" "1351079888211149 / 4503599627370496"
      "1 / 18014398509481984" "5404319552844596"]
  by simp

lemma b64_18:
  "binary64 (2 / 5)
     = 3602879701896397 / 9007199254740992"
  using binary64_near [of "- 2" "2 / 5"
      "1 / 18014398509481984" "7205759403792794"]
  by simp

lemma b64_19:
  "binary64 (3602879701896397 / 9007199254740992)
     = 3602879701896397 / 9007199254740992"
  using binary64_near [of "- 2" "3602879701896397 / 9007199254740992"
      "1 / 18014398509481984" "7205759403792794"]
  by simp

lemma b64_20:
  "binary64 (1 / 2)
     = 1 / 2"
  using binary64_near [of "- 1" "1 / 2"
      "1 / 9007199254740992" "4503599627370496"]
  by simp

lemma b64_21:
  "binary64 (5404319552844595 / 9007199254740992)
     = 5404319552844595 / 9007199254740992"
  using binary64_near [of "- 1" "5404319552844595 / 9007199254740992"
      "1 / 9007199254740992" "5404319552844595"]
  by simp

lemma b64_22:
  "binary64 (3 / 5)
     = 5404319552844595 / 9007199254740992"
  using binary64_near [of "- 1" "3 / 5"
      "1 / 9007199254740992" "5404319552844595"]
  by simp

lemma b64_23:
  "binary64 (4 / 5)
     = 3602879701896397 / 4503599627370496"
  using binary64_near [of "- 1" "4 / 5"
      "1 / 9007199254740992" "7205759403792794"]
  by simp

lemma b64_24:
  "binary64 (8106479329266893 / 9007199254740992)
     = 8106479329266893 / 9007199254740992"
  using binary64_near [of "- 1" "8106479329266893 / 9007199254740992"
      "1 / 9007199254740992" "8106479329266893"]
  by simp

lemma b64_25:
  "binary64 (32425917317067573 / 36028797018963968)
     = 8106479329266893 / 9007199254740992"
  using binary64_near [of "- 1" "32425917317067573 / 36028797018963968"
      "1 / 9007199254740992" "8106479329266893"]
  by simp

lemma b64_26:
  "binary64 (1)
     = 1"
  using binary64_near [of "0" "1"
      "1 / 4503599627370496" "4503599627370496"]
  by simp

lemma b64_27:
  "binary64 (4722371205236128083341 / 4722366482869645213696)
     = 4503604130970123 / 4503599627370496"
  using binary64_near [of "0" "4722371205236128083341 / 4722366482869645213696"
      "1 / 4503599627370496" "4503604130970123"]
  by simp

lemma b64_28:
  "binary64 (10808639105689191 / 9007199254740992)
     = 1351079888211149 / 1125899906842624"
  using binary64_tie [of "0" "10808639105689191 / 9007199254740992"
      "1 / 4503599627370496" "5404319552844595"]
  by simp

lemma b64_29:
  "binary64 (3)
     = 3"
  using binary64_near [of "1" "3"
      "1 / 2251799813685248" "6755399441055744"]
  by simp

lemma b64_30:
  "binary64 (4)
     = 4"
  using binary64_near [of "2" "4"
      "1 / 1125899906842624" "4503599627370496"]
  by simp

lemma b64_31:
  "binary64 (10)
     = 10"
  using binary64_near [of "3" "10"
      "1 / 562949953421312" "5629499534213120"]
  by simp

lemma b64_32:
  "binary64 (12)
     = 12"
  using binary64_near [of "3" "12"
      "1 / 562949953421312" "6755399441055744"]
  by simp

lemma r2_1:
  "py_round2 (5404319552844595 / 72057594037927936) = 7 / 100"
  using py_round2_down [of 7 "5404319552844595 / 72057594037927936"]
  by simp

lemma r2_2:
  "py_round2 (1351079888211149 / 18014398509481984) = 2 / 25"
  using py_round2_up [of 7 "1351079888211149 / 18014398509481984"]
  by simp

lemma r2_3:
  "py_round2 (6485183463413515 / 72057594037927936) = 9 / 100"
  using py_round2_down [of 9 "6485183463413515 / 72057594037927936"]
  by simp

lemma r2_4:
  "py_round2 (1621295865853379 / 18014398509481984) = 9 / 100"
  using py_round2_down [of 9 "1621295865853379 / 18014398509481984"]
  by simp

lemma r2_5:
  "py_round2 (3602879701896397 / 36028797018963968) = 1 / 10"
  using py_round2_down [of 10 "3602879701896397 / 36028797018963968"]
  by simp

lemmas b64 = b64_1 b64_2 b64_3 b64_4 b64_5 b64_6 b64_7 b64_8 b64_9 b64_10 b64_11 b64_12
  b64_13 b64_14 b64_15 b64_16 b64_17 b64_18 b64_19 b64_20 b64_21 b64_22 b64_23 b64_24
  b64_25 b64_26 b64_27 b64_28 b64_29 b64_30 b64_31 b64_32

lemmas r2 = r2_1 r2_2 r2_3 r2_4 r2_5

lemmas fl_defs = calculate_scores_fl_def score_loop_fl.simps loop_body_fl_def score_ps_fl_def
  think_ratio_term_fl_def score_code_fl_def improvement_factor_fl_def
  keystroke_efficiency_fl_def score_resilience_fl_def stuck_ratio_fl_def average_fl_def
  score_autonomy_fl_def overall_report_fl_def base_score_of_fl_def sum_fl_def py_div_fl_def
  init_state_def epsilon_def need_def bind_err_def Let_def

lemma calculate_tie:
  "calculate_scores_fl binary64 [q_tie] cfg_tie
     = Inr \<lparr>Problem_Solving_Score = 10, Coding_Proficiency_Score = 0,
          Resilience_Score = binary64 (1 / 10), Autonomy_Score = 10,
          Overall_Score = binary64 (9 / 100),
          Details = \<lparr>Base_Score = binary64 (8 / 100), Difficulty_Factor = 1\<rparr>\<rparr>"
  by (simp add: fl_defs q_tie_def cfg_tie_def
      binary64_0 b64 r2 py_round2_0 py_round2_1 py_round2_10)

lemma calculate_tie_scaled:
  "calculate_scores_fl binary64 [q_tie] (scale_weights 3 cfg_tie)
     = Inr \<lparr>Problem_Solving_Score = 10, Coding_Proficiency_Score = 0,
          Resilience_Score = binary64 (1 / 10), Autonomy_Score = 10,
          Overall_Score = binary64 (9 / 100),
          Details = \<lparr>Base_Score = binary64 (7 / 100), Difficulty_Factor = 1\<rparr>\<rparr>"
  by (simp add: fl_defs q_tie_def cfg_tie_def scale_weights_def named_weights_def
      binary64_0 b64 r2 py_round2_0 py_round2_1 py_round2_10)

text \<open>
  C10 as stated: scaling the four weights by the same positive constant leaves the base
  score, and so every field of the report, unchanged. In the floating-point arithmetic of
  the source it does not. On the question \<open>q_tie\<close> with the weights 0, 1, 3, 0 the
  reported base score is 0.08; with three times these weights, 0, 3, 9, 0, it is 0.07.
  The resilience average is the double next to 0.1. Three times it rounds up, to
  0.30000000000000004, and a quarter of that lies above 0.075; nine times it rounds to
  0.9, and a twelfth of that rounds to the double below 0.075.
\<close>

theorem weights_scale_counterexample:
  "weights (scale_weights 3 cfg_tie)
     = Some [(''ps'', 0), (''code'', 3), (''resilience'', 9), (''autonomy'', 0)]
   \<and> calculate_scores_fl binary64 [q_tie] cfg_tie
     = Inr \<lparr>Problem_Solving_Score = 10, Coding_Proficiency_Score = 0,
          Resilience_Score = binary64 (1 / 10), Autonomy_Score = 10,
          Overall_Score = binary64 (9 / 100),
          Details = \<lparr>Base_Score = binary64 (8 / 100), Difficulty_Factor = 1\<rparr>\<rparr>
   \<and> calculate_scores_fl binary64 [q_tie] (scale_weights 3 cfg_tie)
     = Inr \<lparr>Problem_Solving_Score = 10, Coding_Proficiency_Score = 0,
          Resilience_Score = binary64 (1 / 10), Autonomy_Score = 10,
          Overall_Score = binary64 (9 / 100),
          Details = \<lparr>Base_Score = binary64 (7 / 100), Difficulty_Factor = 1\<rparr>\<rparr>
   \<and> binary64 (8 / 100) \<noteq> binary64 (7 / 100)"
proof -
  have "weights (scale_weights 3 cfg_tie)
     = Some [(''ps'', 0), (''code'', 3), (''resilience'', 9), (''autonomy'', 0)]"
    by (simp add: scale_weights_def cfg_tie_def named_weights_def)
  moreover have "binary64 (8 / 100) \<noteq> binary64 (7 / 100)"
    by (simp add: b64)
  ultimately show ?thesis
    using calculate_tie calculate_tie_scaled by simp
qed

text \<open>
  C10, amended. When the weights dictionary has no entry besides the four, scaling the
  four weights by a power of two leaves the result of the call, report or exception,
  unchanged in binary64 arithmetic; and scaling them by any constant \<open>c > 0\<close> leaves the
  unrounded scores and the result of the call unchanged in exact arithmetic.
\<close>

theorem weights_scale_invariant:
  assumes "only_named_weights cfg"
  shows "calculate_scores_fl binary64 qs (scale_weights (2 powi j) cfg)
           = calculate_scores_fl binary64 qs cfg
       \<and> (0 < c \<longrightarrow> compute_scores qs (scale_weights c cfg) = compute_scores qs cfg
            \<and> calculate_scores qs (scale_weights c cfg) = calculate_scores qs cfg)"
proof (intro conjI impI)
  have "(2::real) powi j \<noteq> 0"
    using zero_less_power_int [of "2::real" j] by simp
  then show "calculate_scores_fl binary64 qs (scale_weights (2 powi j) cfg)
           = calculate_scores_fl binary64 qs cfg"
    using binary64_scale assms by (intro calculate_scores_fl_scaled) simp_all
next
  assume "0 < c"
  then have c: "c \<noteq> 0" by simp
  show "compute_scores qs (scale_weights c cfg) = compute_scores qs cfg"
    by (rule compute_scores_scaled [OF c assms])
  then show "calculate_scores qs (scale_weights c cfg) = calculate_scores qs cfg"
    by (simp add: calculate_scores_def)
qed

theorem weights_scale_invariant_witness:
  "only_named_weights cfg_tie \<and> only_named_weights cfg1
   \<and> weights (scale_weights 2 cfg_tie)
       = Some [(''ps'', 0), (''code'', 2), (''resilience'', 6), (''autonomy'', 0)]
   \<and> calculate_scores_fl binary64 [q_tie] (scale_weights 2 cfg_tie)
       = calculate_scores_fl binary64 [q_tie] cfg_tie
   \<and> weights (scale_weights 3 cfg1) = Some [(''ps'', 12 / 10), (''code'', 9 / 10),
        (''resilience'', 3 / 10), (''autonomy'', 6 / 10)]
   \<and> compute_scores [q1] (scale_weights 3 cfg1) = compute_scores [q1] cfg1
   \<and> calculate_scores [q1] (scale_weights 3 cfg1) = calculate_scores [q1] cfg1"
proof -
  have a: "only_named_weights cfg_tie" "only_named_weights cfg1"
    by (simp_all add: only_named_weights_def cfg_tie_def cfg1_def named_weights_def)
  have w: "weights (scale_weights 2 cfg_tie)
       = Some [(''ps'', 0), (''code'', 2), (''resilience'', 6), (''autonomy'', 0)]"
    "weights (scale_weights 3 cfg1) = Some [(''ps'', 12 / 10), (''code'', 9 / 10),
        (''resilience'', 3 / 10), (''autonomy'', 6 / 10)]"
    by (simp_all add: scale_weights_def cfg_tie_def cfg1_def named_weights_def)
  show ?thesis
    using weights_scale_invariant [OF a(1), of "[q_tie]" 1 3]
      weights_scale_invariant [OF a(2), of "[q1]" 1 3] a w
    by simp
qed

end
